theory Spec2Isabelle
  imports Complex_Main
begin

section \<open>Constants of main.go\<close>

text \<open>
  Go strings and byte slices are byte sequences: both are modelled as \<open>string\<close>
  (a list of 8-bit characters). \<open>int64\<close> values are modelled as \<open>int\<close> with the
  wrap-around of \<open>counter++\<close> written out.
\<close>

definition MaxBodyLen :: nat where
  "MaxBodyLen = 2 ^ 20"

text \<open>Durations and clock readings are counted in nanoseconds, as \<open>time.Duration\<close> is.\<close>

definition Second :: int where
  "Second = 1000000000"

definition PasteCooldown :: int where
  "PasteCooldown = 5 * Second"

definition Alphabet :: string where
  "Alphabet = ''abcdefghijklmnopqrstuvwxyz1234567890''"

definition DataDir :: string where
  "DataDir = ''/var/lib/paast''"

section \<open>Library functions the handlers call\<close>

subsection \<open>strings\<close>

definition HasPrefix :: "string \<Rightarrow> string \<Rightarrow> bool" where
  "HasPrefix s p = (take (length p) s = p)"

definition HasSuffix :: "string \<Rightarrow> string \<Rightarrow> bool" where
  "HasSuffix s p = (length p \<le> length s \<and> drop (length s - length p) s = p)"

text \<open>\<open>strings.Split(s, sep)\<close> for a one-byte separator; the empty string splits into one
  empty part.\<close>

fun Split :: "string \<Rightarrow> char \<Rightarrow> string list" where
  "Split [] sep = [[]]"
| "Split (c # cs) sep =
     (if c = sep then [] # Split cs sep
      else (case Split cs sep of [] \<Rightarrow> [[c]] | p # ps \<Rightarrow> (c # p) # ps))"

text \<open>
  \<open>strings.TrimSpace\<close> removes leading and trailing white space as \<open>unicode.IsSpace\<close>
  defines it: the six ASCII characters below and the UTF-8 encodings of U+0085, U+00A0,
  U+1680, U+2000..U+200A, U+2028, U+2029, U+202F, U+205F and U+3000. A byte sequence that
  is not valid UTF-8 decodes to U+FFFD, which is not white space, so trimming stops there.
\<close>

definition asciiSpace :: "char \<Rightarrow> bool" where
  "asciiSpace c = (c \<in> set [CHR 0x09, CHR 0x0A, CHR 0x0B, CHR 0x0C, CHR 0x0D, CHR 0x20])"

definition unicodeSpaces :: "string list" where
  "unicodeSpaces =
     [[CHR 0xC2, CHR 0x85], [CHR 0xC2, CHR 0xA0], [CHR 0xE1, CHR 0x9A, CHR 0x80],
      [CHR 0xE2, CHR 0x80, CHR 0x80], [CHR 0xE2, CHR 0x80, CHR 0x81],
      [CHR 0xE2, CHR 0x80, CHR 0x82], [CHR 0xE2, CHR 0x80, CHR 0x83],
      [CHR 0xE2, CHR 0x80, CHR 0x84], [CHR 0xE2, CHR 0x80, CHR 0x85],
      [CHR 0xE2, CHR 0x80, CHR 0x86], [CHR 0xE2, CHR 0x80, CHR 0x87],
      [CHR 0xE2, CHR 0x80, CHR 0x88], [CHR 0xE2, CHR 0x80, CHR 0x89],
      [CHR 0xE2, CHR 0x80, CHR 0x8A], [CHR 0xE2, CHR 0x80, CHR 0xA8],
      [CHR 0xE2, CHR 0x80, CHR 0xA9], [CHR 0xE2, CHR 0x80, CHR 0xAF],
      [CHR 0xE2, CHR 0x81, CHR 0x9F], [CHR 0xE3, CHR 0x80, CHR 0x80]]"

text \<open>The width in bytes of the white-space rune a string starts (ends) with, 0 if it
  starts (ends) with none.\<close>

definition leadingSpace :: "string \<Rightarrow> nat" where
  "leadingSpace s =
     (case s of
        [] \<Rightarrow> 0
      | c # _ \<Rightarrow>
          if asciiSpace c then 1
          else (case find (\<lambda>e. HasPrefix s e) unicodeSpaces of
                  Some e \<Rightarrow> length e
                | None \<Rightarrow> 0))"

definition trailingSpace :: "string \<Rightarrow> nat" where
  "trailingSpace s =
     (if s = [] then 0
      else if asciiSpace (last s) then 1
      else (case find (\<lambda>e. HasSuffix s e) unicodeSpaces of
              Some e \<Rightarrow> length e
            | None \<Rightarrow> 0))"

function TrimLeft :: "string \<Rightarrow> string" where
  "TrimLeft s = (if leadingSpace s = 0 then s else TrimLeft (drop (leadingSpace s) s))"
  by pat_completeness auto
termination
  by (relation "measure length") (auto simp: leadingSpace_def split: list.splits)

function TrimRight :: "string \<Rightarrow> string" where
  "TrimRight s =
     (if trailingSpace s = 0 then s else TrimRight (take (length s - trailingSpace s) s))"
  by pat_completeness auto
termination
  by (relation "measure length") (auto simp: trailingSpace_def split: if_splits)

definition TrimSpace :: "string \<Rightarrow> string" where
  "TrimSpace s = TrimRight (TrimLeft s)"

subsection \<open>strconv and fmt\<close>

datatype NumError = ErrSyntax | ErrRange

definition digitVal :: "char \<Rightarrow> nat option" where
  "digitVal c =
     (if 48 \<le> (of_char c :: nat) \<and> (of_char c :: nat) \<le> 57
      then Some (of_char c - 48) else None)"

text \<open>The digit loop of \<open>strconv.ParseUint(s, 10, 64)\<close>: a byte that is no digit is a
  syntax error, a value beyond \<open>2^64 - 1\<close> a range error, whichever comes first.\<close>

fun ParseUintLoop :: "nat \<Rightarrow> string \<Rightarrow> NumError + nat" where
  "ParseUintLoop n [] = Inr n"
| "ParseUintLoop n (c # cs) =
     (case digitVal c of
        None \<Rightarrow> Inl ErrSyntax
      | Some d \<Rightarrow> if 2 ^ 64 \<le> n * 10 + d then Inl ErrRange else ParseUintLoop (n * 10 + d) cs)"

definition ParseUint :: "string \<Rightarrow> NumError + nat" where
  "ParseUint s = (if s = [] then Inl ErrSyntax else ParseUintLoop 0 s)"

text \<open>\<open>strconv.ParseInt(s, 10, 64)\<close>: an optional sign, then \<open>ParseUint\<close>, then the range
  check against \<open>2^63\<close>.\<close>

definition ParseInt :: "string \<Rightarrow> NumError + int" where
  "ParseInt s =
     (case s of
        [] \<Rightarrow> Inl ErrSyntax
      | c # cs \<Rightarrow>
          (let neg = (c = CHR ''-'');
               s' = (if c = CHR ''+'' \<or> c = CHR ''-'' then cs else s)
           in case ParseUint s' of
                Inl e \<Rightarrow> Inl e
              | Inr un \<Rightarrow>
                  if \<not> neg \<and> 2 ^ 63 \<le> un then Inl ErrRange
                  else if neg \<and> 2 ^ 63 < un then Inl ErrRange
                  else Inr (if neg then - int un else int un)))"

definition digitChar :: "nat \<Rightarrow> char" where
  "digitChar d = char_of (48 + d)"

function FormatUint :: "nat \<Rightarrow> string" where
  "FormatUint n =
     (if n < 10 then [digitChar n] else FormatUint (n div 10) @ [digitChar (n mod 10)])"
  by pat_completeness auto
termination
  by (relation "measure id") auto

text \<open>\<open>fmt.Sprint(v)\<close> of an \<open>int64\<close> (the verb \<open>%d\<close>).\<close>

definition Sprint :: "int \<Rightarrow> string" where
  "Sprint v = (if v < 0 then CHR ''-'' # FormatUint (nat (- v)) else FormatUint (nat v))"

text \<open>\<open>fmt.Sprintf("%09d", v)\<close>: zeros fill up to width 9, the sign counting as one
  column; a longer number is not cut.\<close>

definition zeroPad :: "nat \<Rightarrow> string \<Rightarrow> string" where
  "zeroPad w s = replicate (w - length s) (CHR ''0'') @ s"

definition Sprintf09d :: "int \<Rightarrow> string" where
  "Sprintf09d v =
     (if v < 0 then CHR ''-'' # zeroPad 8 (FormatUint (nat (- v)))
      else zeroPad 9 (FormatUint (nat v)))"

section \<open>The environment: files and faults\<close>

text \<open>
  The disk is a map from path to content. Every call the handlers make to the operating
  system is appended to a trace, in program order, whether it succeeds or not. A fault
  oracle decides which calls the operating system fails (a full disk, a missing
  directory, a permission, a name longer than the file system takes); a read-only open
  of an absent file fails by itself.
\<close>

datatype OpenFlag = O_CREATE_RDWR | O_CREATE_WRONLY | O_RDONLY

datatype IOCall =
    CallOpenFile string OpenFlag
  | CallReadAll string
  | CallSeek string
  | CallWrite string string

text \<open>An error value: what \<open>os.IsNotExist\<close> says of it, and its message.\<close>

datatype IOError = IOError (IsNotExist: bool) (Error: string)

type_synonym Faults = "IOCall \<Rightarrow> IOError option"

record World =
  files :: "string \<rightharpoonup> string"
  trace :: "IOCall list"

definition logCall :: "IOCall \<Rightarrow> World \<Rightarrow> World" where
  "logCall c w = w\<lparr>trace := trace w @ [c]\<rparr>"

text \<open>\<open>os.OpenFile\<close>: with \<open>O_CREATE\<close> an absent file is created empty, and no flag used
  here truncates an existing one.\<close>

definition OpenFile :: "Faults \<Rightarrow> string \<Rightarrow> OpenFlag \<Rightarrow> World \<Rightarrow> (IOError + unit) \<times> World" where
  "OpenFile flt name flag w =
     (let w1 = logCall (CallOpenFile name flag) w in
      case flt (CallOpenFile name flag) of
        Some e \<Rightarrow> (Inl e, w1)
      | None \<Rightarrow>
          (case files w name of
             Some _ \<Rightarrow> (Inr (), w1)
           | None \<Rightarrow>
               if flag = O_RDONLY
               then (Inl (IOError True (''open '' @ name @ '': no such file or directory'')), w1)
               else (Inr (), w1\<lparr>files := (files w)(name \<mapsto> [])\<rparr>)))"

text \<open>\<open>ioutil.ReadAll\<close> on a file just opened: its whole content.\<close>

definition ReadAll :: "Faults \<Rightarrow> string \<Rightarrow> World \<Rightarrow> (IOError + string) \<times> World" where
  "ReadAll flt name w =
     (let w1 = logCall (CallReadAll name) w in
      case flt (CallReadAll name) of
        Some e \<Rightarrow> (Inl e, w1)
      | None \<Rightarrow>
          (case files w name of
             Some content \<Rightarrow> (Inr content, w1)
           | None \<Rightarrow> (Inl (IOError True (''read '' @ name @ '': file already closed'')), w1)))"

text \<open>\<open>file.Seek(0, 0)\<close>.\<close>

definition Seek :: "Faults \<Rightarrow> string \<Rightarrow> World \<Rightarrow> IOError option \<times> World" where
  "Seek flt name w = (flt (CallSeek name), logCall (CallSeek name) w)"

text \<open>\<open>file.Write(b)\<close> at offset 0 (both files are written at offset 0: the counter after
  the seek, the paste right after it is opened): the bytes replace the start of the
  content, and what the file held beyond them stays.\<close>

definition writeAt0 :: "string \<Rightarrow> string \<Rightarrow> string" where
  "writeAt0 old b = b @ drop (length b) old"

definition Write :: "Faults \<Rightarrow> string \<Rightarrow> string \<Rightarrow> World \<Rightarrow> IOError option \<times> World" where
  "Write flt name b w =
     (let w1 = logCall (CallWrite name b) w in
      case flt (CallWrite name b) of
        Some e \<Rightarrow> (Some e, w1)
      | None \<Rightarrow>
          (case files w name of
             Some old \<Rightarrow> (None, w1\<lparr>files := (files w)(name \<mapsto> writeAt0 old b)\<rparr>)
           | None \<Rightarrow> (Some (IOError True (''write '' @ name @ '': file already closed'')), w1)))"

section \<open>The counter file\<close>

definition counterPath :: string where
  "counterPath = DataDir @ ''/counter.dat''"

text \<open>\<open>path.Join(DataDir, fmt.Sprintf("pastes/%09d_%s", counter, hash))\<close>. \<open>path.Join\<close>
  also cleans its result, which changes nothing as long as the hash holds neither a slash
  nor a dot; the hashes of this program are words over \<open>Alphabet\<close>.\<close>

definition pastePath :: "int \<Rightarrow> string \<Rightarrow> string" where
  "pastePath counter hash = DataDir @ ''/'' @ ''pastes/'' @ Sprintf09d counter @ ''_'' @ hash"

definition validHash :: "string \<Rightarrow> bool" where
  "validHash hash = (hash \<noteq> [] \<and> set hash \<subseteq> set Alphabet)"

definition ReadCounter :: "Faults \<Rightarrow> string \<Rightarrow> World \<Rightarrow> (string + int) \<times> World" where
  "ReadCounter flt file w =
     (case ReadAll flt file w of
        (Inl err, w1) \<Rightarrow> (Inl (''read counter: '' @ Error err), w1)
      | (Inr content, w1) \<Rightarrow>
          (case ParseInt (TrimSpace content) of
             Inl _ \<Rightarrow> (Inr 0, w1)
           | Inr v \<Rightarrow> (Inr v, w1)))"

definition WriteCounter :: "Faults \<Rightarrow> string \<Rightarrow> int \<Rightarrow> World \<Rightarrow> string option \<times> World" where
  "WriteCounter flt file v w =
     (case Seek flt file w of
        (Some err, w1) \<Rightarrow> (Some (''write counter: '' @ Error err), w1)
      | (None, w1) \<Rightarrow>
          (case Write flt file (Sprint v) w1 of
             (Some err, w2) \<Rightarrow> (Some (''write counter: '' @ Error err), w2)
           | (None, w2) \<Rightarrow> (None, w2)))"

text \<open>\<open>counter++\<close> on an \<open>int64\<close>.\<close>

definition incr64 :: "int \<Rightarrow> int" where
  "incr64 c = (c + 1 + 2 ^ 63) mod 2 ^ 64 - 2 ^ 63"

section \<open>The handlers\<close>

text \<open>
  The identifier codec is the library \<open>go-hashids\<close>, built in \<open>NewHttpRoutes\<close> from the
  salt, \<open>Alphabet\<close> and minimum length 3. The handlers use two of its methods, which are
  the fields of \<open>HashID\<close>: \<open>EncodeInt64\<close> returns an error or a hash,
  \<open>DecodeInt64WithError\<close> returns a slice together with an optional error.
\<close>

record HashID =
  EncodeInt64 :: "int list \<Rightarrow> string + string"
  DecodeInt64WithError :: "string \<Rightarrow> int list \<times> string option"

record HttpRoutes =
  hashidMaker :: HashID

text \<open>What a handler reads of a request. \<open>Part\<close> is what the multipart reader makes of
  the body (its first part, or an error message); it is only looked at when the content
  type says multipart.\<close>

record Request =
  ContentType :: string
  Body :: string
  Part :: "string + string"
  RemoteAddr :: string
  Host :: string
  Scheme :: string

record Response =
  status :: nat
  headers :: "(string \<times> string) list"
  body :: string

text \<open>The body is read through \<open>http.MaxBytesReader(rw, r.Body, MaxBodyLen)\<close>: up to
  \<open>MaxBodyLen\<close> bytes pass, more is an error.\<close>

definition PasteFromBody :: "Request \<Rightarrow> string + string" where
  "PasteFromBody r =
     (if MaxBodyLen < length (Body r) then Inl ''http: request body too large''
      else Inr (Body r))"

definition PasteFromMultipart :: "Request \<Rightarrow> string + string" where
  "PasteFromMultipart r = Part r"

text \<open>How a run of \<open>CreatePaste\<close> ends; \<open>Created\<close> carries the local variables
  \<open>counter\<close> and \<open>counterHash\<close>, \<open>Panicked\<close> the message of the recovered panic.\<close>

datatype Outcome =
    TooLarge
  | Panicked string
  | EmptyPaste
  | Created int string

text \<open>The section "Parse request" of \<open>CreatePaste\<close>.\<close>

definition requestPaste :: "Request \<Rightarrow> string + string" where
  "requestPaste r =
     (if HasPrefix (ContentType r) ''multipart/form-data''
      then PasteFromMultipart r else PasteFromBody r)"

definition createSteps :: "HttpRoutes \<Rightarrow> Faults \<Rightarrow> Request \<Rightarrow> World \<Rightarrow> Outcome \<times> World" where
  "createSteps hr flt r w =
     (case requestPaste r of
        Inl err \<Rightarrow>
          if HasSuffix err ''http: request body too large'' then (TooLarge, w)
          else (Panicked err, w)
      | Inr pasteContent \<Rightarrow>
          if length pasteContent = 0 then (EmptyPaste, w)
          else
            (case OpenFile flt counterPath O_CREATE_RDWR w of
               (Inl err, w1) \<Rightarrow> (Panicked (Error err), w1)
             | (Inr _, w1) \<Rightarrow>
                 (case ReadCounter flt counterPath w1 of
                    (Inl err, w2) \<Rightarrow> (Panicked err, w2)
                  | (Inr counter0, w2) \<Rightarrow>
                      (let counter = incr64 counter0 in
                       case WriteCounter flt counterPath counter w2 of
                         (Some err, w3) \<Rightarrow> (Panicked err, w3)
                       | (None, w3) \<Rightarrow>
                           (case EncodeInt64 (hashidMaker hr) [counter] of
                              Inl err \<Rightarrow> (Panicked err, w3)
                            | Inr counterHash \<Rightarrow>
                                (case OpenFile flt (pastePath counter counterHash)
                                        O_CREATE_WRONLY w3 of
                                   (Inl err, w4) \<Rightarrow> (Panicked (Error err), w4)
                                 | (Inr _, w4) \<Rightarrow>
                                     (case Write flt (pastePath counter counterHash)
                                             pasteContent w4 of
                                        (Some err, w5) \<Rightarrow> (Panicked (Error err), w5)
                                      | (None, w5) \<Rightarrow>
                                          (Created counter counterHash, w5))))))))"

definition createResponse :: "Request \<Rightarrow> Outcome \<Rightarrow> Response" where
  "createResponse r out =
     (case out of
        TooLarge \<Rightarrow>
          \<lparr>status = 413, headers = [], body = ''error: request body too large'' @ [CHR 0x0A]\<rparr>
      | Panicked msg \<Rightarrow> \<lparr>status = 500, headers = [], body = msg\<rparr>
      | EmptyPaste \<Rightarrow>
          \<lparr>status = 400, headers = [], body = ''error: your paste is empty!'' @ [CHR 0x0A]\<rparr>
      | Created counter counterHash \<Rightarrow>
          \<lparr>status = 200, headers = [],
           body = (if Scheme r \<noteq> [] then Scheme r else ''http'') @ ''://'' @ Host r @ ''/''
                  @ counterHash @ [CHR 0x0A]\<rparr>)"

definition CreatePaste :: "HttpRoutes \<Rightarrow> Faults \<Rightarrow> Request \<Rightarrow> World \<Rightarrow> Response \<times> World" where
  "CreatePaste hr flt r w =
     (case createSteps hr flt r w of (out, w') \<Rightarrow> (createResponse r out, w'))"

text \<open>\<open>RetrievePaste\<close>; \<open>hash\<close> is the route variable. The error of the decoder is
  dropped, and ordinal 0 stands in when the decoder returns no number.\<close>

definition lookupCounters :: "HttpRoutes \<Rightarrow> string \<Rightarrow> int list" where
  "lookupCounters hr hash =
     (let counters = fst (DecodeInt64WithError (hashidMaker hr) hash)
      in if length counters = 0 then counters @ [0] else counters)"

definition RetrievePaste :: "HttpRoutes \<Rightarrow> Faults \<Rightarrow> string \<Rightarrow> World \<Rightarrow> Response \<times> World" where
  "RetrievePaste hr flt hash w =
     (case OpenFile flt (pastePath (hd (lookupCounters hr hash)) hash) O_RDONLY w of
        (Inl err, w1) \<Rightarrow>
          if IsNotExist err
          then (\<lparr>status = 404, headers = [],
                 body = ''paste with id '' @ [CHR 0x22] @ hash @ [CHR 0x22]
                        @ '' was not found'' @ [CHR 0x0A]\<rparr>, w1)
          else (\<lparr>status = 500, headers = [], body = Error err\<rparr>, w1)
      | (Inr _, w1) \<Rightarrow>
          (case ReadAll flt (pastePath (hd (lookupCounters hr hash)) hash) w1 of
             (Inl err, w2) \<Rightarrow> (\<lparr>status = 500, headers = [], body = Error err\<rparr>, w2)
           | (Inr content, w2) \<Rightarrow> (\<lparr>status = 200, headers = [], body = content\<rparr>, w2)))"

section \<open>The throttle\<close>

text \<open>
  \<open>addrTimeMap\<close> maps a key to a clock reading in nanoseconds; a key that is absent reads
  as the zero \<open>time.Time\<close>, January 1 of year 1, which is \<open>zeroTime\<close> on the time line
  of the Unix epoch.
\<close>

definition zeroTime :: int where
  "zeroTime = - 62135596800 * Second"

text \<open>\<open>t.Sub(u)\<close> saturates at the ends of \<open>time.Duration\<close>.\<close>

definition Sub :: "int \<Rightarrow> int \<Rightarrow> int" where
  "Sub t u = max (- (2 ^ 63)) (min (2 ^ 63 - 1) (t - u))"

text \<open>\<open>int64(math.Ceil(d.Seconds()))\<close>. \<open>Seconds\<close> adds the whole seconds and the
  nanoseconds over \<open>1e9\<close> in \<open>float64\<close>; for a duration of less than \<open>2^24\<close> seconds the
  rounding of that sum does not reach the next integer, so the ceiling is the exact one.\<close>

definition ceilSeconds :: "int \<Rightarrow> int" where
  "ceilSeconds d = - ((- d) div Second)"

definition RateLimit ::
  "(Request \<Rightarrow> 's \<Rightarrow> Response \<times> 's) \<Rightarrow> int \<Rightarrow> int \<Rightarrow> Request \<Rightarrow>
   (string \<rightharpoonup> int) \<times> 's \<Rightarrow> Response \<times> (string \<rightharpoonup> int) \<times> 's" where
  "RateLimit fn now now' r st =
     (case st of (addrTimeMap, s) \<Rightarrow>
        (let addrParts = Split (RemoteAddr r) (CHR '':'') in
         if 1 < length addrParts then
           (let lastTime = (case addrTimeMap (hd addrParts) of None \<Rightarrow> zeroTime | Some t \<Rightarrow> t);
                nextTry = lastTime + PasteCooldown;
                retryAfter = ceilSeconds (Sub nextTry now)
            in if 0 < retryAfter then
                 (\<lparr>status = 429, headers = [(''Retry-After'', Sprint retryAfter)],
                   body = ''error: please wait '' @ Sprint retryAfter
                          @ '' seconds before creating new paste'' @ [CHR 0x0A]\<rparr>,
                  (addrTimeMap, s))
               else (case fn r s of
                       (resp, s') \<Rightarrow> (resp, (addrTimeMap(hd addrParts \<mapsto> now'), s'))))
         else (case fn r s of (resp, s') \<Rightarrow> (resp, (addrTimeMap, s')))))"

section \<open>Stores the program leaves behind\<close>

definition noFault :: Faults where
  "noFault = (\<lambda>_. None)"

definition emptyWorld :: World where
  "emptyWorld = \<lparr>files = Map.empty, trace = []\<rparr>"

text \<open>
  \<open>storeInv hr fs n\<close> describes the data directory after \<open>n\<close> ordinals have been handed
  out: the counter file is absent or empty (only while \<open>n = 0\<close>) or holds the text
  \<open>Sprint n\<close>, and every other file is the paste file of an ordinal from 1 to \<open>n\<close> under
  the hash the encoder gives that ordinal.
\<close>

definition storeInv :: "HttpRoutes \<Rightarrow> (string \<rightharpoonup> string) \<Rightarrow> int \<Rightarrow> bool" where
  "storeInv hr fs n =
     (0 \<le> n \<and>
      (fs counterPath = Some (Sprint n) \<or>
       n = 0 \<and> (fs counterPath = None \<or> fs counterPath = Some [])) \<and>
      (\<forall>name \<in> dom fs.
         name = counterPath \<or>
         (\<exists>k hash. 0 < k \<and> k \<le> n \<and> EncodeInt64 (hashidMaker hr) [k] = Inr hash \<and>
            name = pastePath k hash)))"

text \<open>The number \<open>CreatePaste\<close> reads from a store when no call fails: the counter file is
  opened with \<open>O_CREATE\<close>, so a missing file reads as the empty one, and \<open>ReadCounter\<close>
  returns 0 for a text that does not parse.\<close>

definition counterValue :: "(string \<rightharpoonup> string) \<Rightarrow> int" where
  "counterValue fs =
     (case ParseInt (TrimSpace (case fs counterPath of None \<Rightarrow> [] | Some c \<Rightarrow> c)) of
        Inl _ \<Rightarrow> 0
      | Inr v \<Rightarrow> v)"

text \<open>A sequence of POST requests, served one after the other, each with the faults the
  operating system has in store for it.\<close>

fun serveAll :: "HttpRoutes \<Rightarrow> (Faults \<times> Request) list \<Rightarrow> World \<Rightarrow> Outcome list \<times> World" where
  "serveAll hr [] w = ([], w)"
| "serveAll hr ((flt, r) # rest) w =
     (case createSteps hr flt r w of
        (out, w1) \<Rightarrow> (case serveAll hr rest w1 of (outs, w2) \<Rightarrow> (out # outs, w2)))"

fun ordinals :: "Outcome list \<Rightarrow> int list" where
  "ordinals [] = []"
| "ordinals (Created counter _ # outs) = counter # ordinals outs"
| "ordinals (_ # outs) = ordinals outs"

subsection \<open>Sample data\<close>

text \<open>A stand-in codec, routes and request, on which the theorems below are run.\<close>

abbreviation sampleHashID :: HashID where
  "sampleHashID \<equiv>
     \<lparr>EncodeInt64 = (\<lambda>ns. Inr ''abc''), DecodeInt64WithError = (\<lambda>h. ([1], None))\<rparr>"

abbreviation sampleRoutes :: HttpRoutes where
  "sampleRoutes \<equiv> \<lparr>hashidMaker = sampleHashID\<rparr>"

abbreviation sampleRequest :: "string \<Rightarrow> Request" where
  "sampleRequest b \<equiv>
     \<lparr>ContentType = ''text/plain'', Body = b, Part = Inr ''unused'',
      RemoteAddr = ''1.2.3.4:5678'', Host = ''paste.example'', Scheme = []\<rparr>"

subsection \<open>Reading decimal text\<close>

definition isDigit :: "char \<Rightarrow> bool" where
  "isDigit c = (48 \<le> (of_char c :: nat) \<and> (of_char c :: nat) \<le> 57)"

text \<open>The number a string of digits denotes, leading zeros allowed.\<close>

definition decVal :: "string \<Rightarrow> nat" where
  "decVal s = foldl (\<lambda>a c. a * 10 + (of_char c - 48)) 0 s"

section \<open>Properties of the decimal text\<close>

declare FormatUint.simps [simp del] TrimLeft.simps [simp del] TrimRight.simps [simp del]

lemma of_char_digitChar: "d < 10 \<Longrightarrow> (of_char (digitChar d) :: nat) = 48 + d"
  by (simp add: digitChar_def)

lemma isDigit_digitChar: "d < 10 \<Longrightarrow> isDigit (digitChar d)"
  by (simp add: isDigit_def of_char_digitChar)

lemma digitVal_digitChar: "d < 10 \<Longrightarrow> digitVal (digitChar d) = Some d"
  by (simp add: digitVal_def of_char_digitChar)

lemma FormatUint_small: "n < 10 \<Longrightarrow> FormatUint n = [digitChar n]"
  by (subst FormatUint.simps) simp

lemma FormatUint_big:
  "\<not> n < 10 \<Longrightarrow> FormatUint n = FormatUint (n div 10) @ [digitChar (n mod 10)]"
  by (subst FormatUint.simps) simp

lemma FormatUint_not_Nil: "FormatUint n \<noteq> []"
  by (cases "n < 10") (simp_all add: FormatUint_small FormatUint_big)

lemma FormatUint_digits: "c \<in> set (FormatUint n) \<Longrightarrow> isDigit c"
proof (induction n arbitrary: c rule: FormatUint.induct)
  case (1 n)
  show ?case
  proof (cases "n < 10")
    case True
    with "1.prems" show ?thesis
      by (simp add: FormatUint_small isDigit_digitChar)
  next
    case False
    with "1.prems" have "c \<in> set (FormatUint (n div 10)) \<or> c = digitChar (n mod 10)"
      by (auto simp: FormatUint_big)
    then show ?thesis
      using "1.IH" [OF False] by (auto simp: isDigit_digitChar)
  qed
qed

lemma ParseUintLoop_append:
  "ParseUintLoop n (xs @ ys) =
     (case ParseUintLoop n xs of Inl e \<Rightarrow> Inl e | Inr m \<Rightarrow> ParseUintLoop m ys)"
  by (induction xs arbitrary: n) (auto split: option.splits)

lemma ParseUintLoop_FormatUint: "n < 2 ^ 64 \<Longrightarrow> ParseUintLoop 0 (FormatUint n) = Inr n"
proof (induction n rule: FormatUint.induct)
  case (1 n)
  show ?case
  proof (cases "n < 10")
    case True
    then show ?thesis
      using "1.prems" by (simp add: FormatUint_small digitVal_digitChar)
  next
    case False
    have "n div 10 < 2 ^ 64" using "1.prems" by simp
    then have "ParseUintLoop 0 (FormatUint (n div 10)) = Inr (n div 10)"
      using "1.IH" False by simp
    moreover have "\<not> (2::nat) ^ 64 \<le> n div 10 * 10 + n mod 10"
      using "1.prems" by simp
    ultimately show ?thesis
      using False
      by (simp add: FormatUint_big ParseUintLoop_append digitVal_digitChar)
  qed
qed

lemma length_FormatUint_mono: "m \<le> n \<Longrightarrow> length (FormatUint m) \<le> length (FormatUint n)"
proof (induction n arbitrary: m rule: FormatUint.induct)
  case (1 n)
  show ?case
  proof (cases "n < 10")
    case True
    then have "m < 10" using "1.prems" by simp
    then show ?thesis using True
      by (simp add: FormatUint_small)
  next
    case False
    show ?thesis
    proof (cases "m < 10")
      case True
      then show ?thesis using False
        by (simp add: FormatUint_small FormatUint_big)
    next
      case m: False
      have "m div 10 \<le> n div 10" using "1.prems" by (rule div_le_mono)
      then have "length (FormatUint (m div 10)) \<le> length (FormatUint (n div 10))"
        using "1.IH" False by simp
      then show ?thesis using False m
        by (simp add: FormatUint_big)
    qed
  qed
qed


lemma unicodeSpaces_high:
  "e \<in> set unicodeSpaces \<Longrightarrow>
     e \<noteq> [] \<and> 128 \<le> (of_char (hd e) :: nat) \<and> 128 \<le> (of_char (last e) :: nat)"
  by (auto simp: unicodeSpaces_def)

lemma HasPrefix_hd: "HasPrefix s e \<Longrightarrow> e \<noteq> [] \<Longrightarrow> hd s = hd e"
  by (cases e; cases s) (auto simp: HasPrefix_def)

lemma HasSuffix_last: "HasSuffix s e \<Longrightarrow> e \<noteq> [] \<Longrightarrow> last s = last e"
proof -
  assume h: "HasSuffix s e" and ne: "e \<noteq> []"
  then have "s = take (length s - length e) s @ e"
    by (metis HasSuffix_def append_take_drop_id)
  then have "last s = last (take (length s - length e) s @ e)" by simp
  then show ?thesis using ne by simp
qed

lemma isDigit_not_asciiSpace: "isDigit c \<Longrightarrow> \<not> asciiSpace c"
  by (auto simp: isDigit_def asciiSpace_def)

lemma isDigit_no_prefix:
  assumes "isDigit (hd s)"
  shows "find (\<lambda>e. HasPrefix s e) unicodeSpaces = None"
proof -
  have "\<not> HasPrefix s e" if e: "e \<in> set unicodeSpaces" for e
  proof
    assume "HasPrefix s e"
    then have "hd s = hd e" using unicodeSpaces_high [OF e] by (simp add: HasPrefix_hd)
    then show False using assms unicodeSpaces_high [OF e] by (simp add: isDigit_def)
  qed
  then show ?thesis by (simp add: find_None_iff)
qed

lemma isDigit_no_suffix:
  assumes "isDigit (last s)"
  shows "find (\<lambda>e. HasSuffix s e) unicodeSpaces = None"
proof -
  have "\<not> HasSuffix s e" if e: "e \<in> set unicodeSpaces" for e
  proof
    assume "HasSuffix s e"
    then have "last s = last e" using unicodeSpaces_high [OF e] by (simp add: HasSuffix_last)
    then show False using assms unicodeSpaces_high [OF e] by (simp add: isDigit_def)
  qed
  then show ?thesis by (simp add: find_None_iff)
qed

lemma leadingSpace_digit: "isDigit (hd s) \<Longrightarrow> leadingSpace s = 0"
  by (cases s) (simp_all add: leadingSpace_def isDigit_not_asciiSpace isDigit_no_prefix)

lemma trailingSpace_digit: "isDigit (last s) \<Longrightarrow> trailingSpace s = 0"
  by (simp add: trailingSpace_def isDigit_not_asciiSpace isDigit_no_suffix)

lemma TrimSpace_digits: "isDigit (hd s) \<Longrightarrow> isDigit (last s) \<Longrightarrow> TrimSpace s = s"
  by (simp add: TrimSpace_def TrimLeft.simps [of s] TrimRight.simps [of s]
      leadingSpace_digit trailingSpace_digit)

lemma TrimSpace_Nil: "TrimSpace [] = []"
  by (simp add: TrimSpace_def TrimLeft.simps [of "[]"] TrimRight.simps [of "[]"]
      leadingSpace_def trailingSpace_def)

lemma TrimSpace_FormatUint: "TrimSpace (FormatUint n) = FormatUint n"
  using FormatUint_not_Nil [of n] FormatUint_digits [of _ n]
  by (intro TrimSpace_digits) simp_all

lemma isDigit_not_sign: "isDigit c \<Longrightarrow> c \<noteq> CHR ''+'' \<and> c \<noteq> CHR ''-''"
  by (auto simp: isDigit_def)

lemma ParseInt_FormatUint: "n < 2 ^ 63 \<Longrightarrow> ParseInt (FormatUint n) = Inr (int n)"
proof -
  assume n: "n < 2 ^ 63"
  obtain c cs where s: "FormatUint n = c # cs"
    using FormatUint_not_Nil [of n] by (cases "FormatUint n") auto
  then have "isDigit c" using FormatUint_digits [of c n] by simp
  then have c: "c \<noteq> CHR ''+''" "c \<noteq> CHR ''-''" using isDigit_not_sign by auto
  have "n < 2 ^ 64" using n by simp
  then have "ParseUint (c # cs) = Inr n"
    using ParseUintLoop_FormatUint [of n] s by (simp add: ParseUint_def)
  then show ?thesis using s c n by (simp add: ParseInt_def)
qed

lemma ParseInt_Nil: "ParseInt [] = Inl ErrSyntax"
  by (simp add: ParseInt_def)

lemma Sprint_nonneg: "0 \<le> v \<Longrightarrow> Sprint v = FormatUint (nat v)"
  by (simp add: Sprint_def)


section \<open>Properties of the throttle\<close>

lemma Split_not_Nil: "Split s sep \<noteq> []"
  by (induction s) (auto split: list.splits)

lemma hd_Split: "hd (Split s sep) = takeWhile (\<lambda>c. c \<noteq> sep) s"
  using Split_not_Nil [of _ sep]
  by (induction s) (auto split: list.splits)












lemma RateLimit_key_host:
  "CHR '':'' \<notin> set host \<Longrightarrow> hd (Split (host @ '':'' @ port) (CHR '':'')) = host"
  by (simp add: hd_Split takeWhile_append)

text \<open>
  Claim C7. The key of the throttle table is the text of the remote address before its
  first colon. For \<open>host:port\<close> with a host free of colons that is the host
  (\<open>RateLimit_key_host\<close>). An IPv6 remote address has the form \<open>[host]:port\<close> with
  colons inside the host, and its key is the bracket and the first group only: the two
  hosts below get the same key, and the second is turned away with 429 one second after
  the first was served.
\<close>

theorem RateLimit_ipv6_shared_key:
  "hd (Split ''[2001:db8::1]:5678'' (CHR '':'')) = ''[2001'' \<and>
   hd (Split ''[2001:db8::2]:9999'' (CHR '':'')) = ''[2001'' \<and>
   (let fn = (\<lambda>r s. (\<lparr>status = 200, headers = [], body = []\<rparr>, s));
        r1 = \<lparr>ContentType = [], Body = ''x'', Part = Inr [], RemoteAddr = ''[2001:db8::1]:5678'',
              Host = ''paste.example'', Scheme = []\<rparr>;
        r2 = r1\<lparr>RemoteAddr := ''[2001:db8::2]:9999''\<rparr>;
        (resp1, st1) = RateLimit fn (100 * Second) (100 * Second) r1 (Map.empty, ());
        (resp2, st2) = RateLimit fn (101 * Second) (101 * Second) r2 st1
    in status resp1 = 200 \<and> status resp2 = 429)"
  by (simp add: RateLimit_def Let_def zeroTime_def PasteCooldown_def Second_def Sub_def
      ceilSeconds_def)

section \<open>The store invariant\<close>

lemma incr64_succ: "- (2 ^ 63) \<le> n \<Longrightarrow> n < 2 ^ 63 - 1 \<Longrightarrow> incr64 n = n + 1"
  by (simp add: incr64_def mod_pos_pos_trivial)

lemma pastePath_not_counterPath: "pastePath k hash \<noteq> counterPath"
  by (simp add: pastePath_def counterPath_def)

lemma parse_Sprint: "0 \<le> n \<Longrightarrow> n < 2 ^ 63 \<Longrightarrow> ParseInt (TrimSpace (Sprint n)) = Inr n"
proof -
  assume n: "0 \<le> n" "n < 2 ^ 63"
  then have "nat n < 2 ^ 63" by (simp add: nat_less_iff)
  then show ?thesis
    using n by (simp add: Sprint_nonneg TrimSpace_FormatUint ParseInt_FormatUint)
qed

lemma parse_empty: "ParseInt (TrimSpace []) = Inl ErrSyntax"
  by (simp add: TrimSpace_Nil ParseInt_Nil)

lemma length_Sprint_mono: "0 \<le> m \<Longrightarrow> m \<le> n \<Longrightarrow> length (Sprint m) \<le> length (Sprint n)"
  by (simp add: Sprint_nonneg length_FormatUint_mono)

lemma writeAt0_short: "length old \<le> length b \<Longrightarrow> writeAt0 old b = b"
  by (simp add: writeAt0_def)

text \<open>What the counter file holds under the invariant, read as a number.\<close>

lemma storeInv_counter:
  assumes "storeInv hr fs n" "n < 2 ^ 63"
  shows "(case fs counterPath of None \<Rightarrow> True
          | Some c \<Rightarrow> (case ParseInt (TrimSpace c) of Inl _ \<Rightarrow> n = 0 | Inr v \<Rightarrow> v = n)
                      \<and> length c \<le> length (Sprint (n + 1)))"
  using assms length_Sprint_mono [of n "n + 1"]
  by (auto simp: storeInv_def parse_Sprint parse_empty split: option.splits sum.splits)


lemma decVal_snoc: "decVal (s @ [c]) = decVal s * 10 + (of_char c - 48)"
  by (simp add: decVal_def)

lemma decVal_FormatUint: "decVal (FormatUint n) = n"
proof (induction n rule: FormatUint.induct)
  case (1 n)
  show ?case
  proof (cases "n < 10")
    case True
    then show ?thesis
      by (simp add: FormatUint_small decVal_def of_char_digitChar)
  next
    case False
    then show ?thesis
      using "1.IH" by (simp add: FormatUint_big decVal_snoc of_char_digitChar)
  qed
qed

lemma foldl_zeros: "foldl (\<lambda>a c. a * 10 + ((of_char c :: nat) - 48)) 0 (replicate k (CHR ''0'')) = 0"
  by (induction k) simp_all

lemma decVal_zeroPad: "decVal (zeroPad w s) = decVal s"
  by (simp add: decVal_def zeroPad_def foldl_zeros)

lemma decVal_Sprintf09d: "0 \<le> v \<Longrightarrow> decVal (Sprintf09d v) = nat v"
  by (simp add: Sprintf09d_def decVal_zeroPad decVal_FormatUint)

lemma Sprintf09d_inj: "0 \<le> a \<Longrightarrow> 0 \<le> b \<Longrightarrow> Sprintf09d a = Sprintf09d b \<Longrightarrow> a = b"
  using decVal_Sprintf09d [of a] decVal_Sprintf09d [of b] by simp

lemma isDigit_not_underscore: "isDigit c \<Longrightarrow> c \<noteq> CHR ''_''"
  by (auto simp: isDigit_def)

lemma zeroPad_digits: "\<forall>c \<in> set s. isDigit c \<Longrightarrow> \<forall>c \<in> set (zeroPad w s). isDigit c"
  by (auto simp: zeroPad_def isDigit_def)

lemma Sprintf09d_no_underscore: "CHR ''_'' \<notin> set (Sprintf09d v)"
proof -
  have "\<forall>c \<in> set (zeroPad w (FormatUint m)). isDigit c" for w m
    using FormatUint_digits by (intro zeroPad_digits) blast
  then have "CHR ''_'' \<notin> set (zeroPad w (FormatUint m))" for w m
    using isDigit_not_underscore by blast
  then show ?thesis by (simp add: Sprintf09d_def)
qed

lemma split_at_first:
  assumes "xs @ u # h = ys @ u # h'" "u \<notin> set xs" "u \<notin> set ys"
  shows "xs = ys \<and> h = h'"
proof -
  have "takeWhile (\<lambda>c. c \<noteq> u) (xs @ u # h) = xs"
    using assms(2) by (auto simp: takeWhile_tail)
  moreover have "takeWhile (\<lambda>c. c \<noteq> u) (ys @ u # h') = ys"
    using assms(3) by (auto simp: takeWhile_tail)
  ultimately have "xs = ys" using assms(1) by simp
  then show ?thesis using assms(1) by simp
qed

lemma pastePath_inj:
  "pastePath k hash = pastePath k' hash' \<Longrightarrow> Sprintf09d k = Sprintf09d k' \<and> hash = hash'"
  using split_at_first [of "Sprintf09d k" "CHR ''_''" hash "Sprintf09d k'" hash']
    Sprintf09d_no_underscore
  by (simp add: pastePath_def)

lemma storeInv_files:
  "storeInv hr fs n \<Longrightarrow> name \<in> dom fs \<Longrightarrow> name \<noteq> counterPath \<Longrightarrow>
     \<exists>k hash. 0 < k \<and> k \<le> n \<and> EncodeInt64 (hashidMaker hr) [k] = Inr hash \<and>
       name = pastePath k hash"
  unfolding storeInv_def by blast

lemma storeInv_nonneg: "storeInv hr fs n \<Longrightarrow> 0 \<le> n"
  unfolding storeInv_def by blast

lemma storeInv_fresh:
  assumes "storeInv hr fs n" "n < k"
  shows "fs (pastePath k hash) = None"
proof (rule ccontr)
  assume "fs (pastePath k hash) \<noteq> None"
  then have "pastePath k hash \<in> dom fs" by auto
  then obtain k' hash' where k': "0 < k'" "k' \<le> n" "pastePath k hash = pastePath k' hash'"
    using storeInv_files [OF assms(1)] pastePath_not_counterPath by blast
  then have "Sprintf09d k = Sprintf09d k'" using pastePath_inj by blast
  moreover have "0 \<le> k" "0 \<le> k'" using storeInv_nonneg [OF assms(1)] assms(2) k' by simp_all
  ultimately have "k = k'" using Sprintf09d_inj by blast
  then show False using k' assms(2) by simp
qed

lemma files_logCall: "files (logCall c w) = files w"
  by (simp add: logCall_def)

lemma trace_logCall: "trace (logCall c w) = trace w @ [c]"
  by (simp add: logCall_def)

lemma OpenFile_existing:
  "flt (CallOpenFile name flag) = None \<Longrightarrow> files w name = Some c \<Longrightarrow>
     OpenFile flt name flag w = (Inr (), logCall (CallOpenFile name flag) w)"
  by (simp add: OpenFile_def Let_def)

lemma OpenFile_create:
  "flt (CallOpenFile name flag) = None \<Longrightarrow> files w name = None \<Longrightarrow> flag \<noteq> O_RDONLY \<Longrightarrow>
     OpenFile flt name flag w =
       (Inr (), (logCall (CallOpenFile name flag) w)\<lparr>files := (files w)(name \<mapsto> [])\<rparr>)"
  by (simp add: OpenFile_def Let_def)

lemma OpenFile_absent:
  "flt (CallOpenFile name O_RDONLY) = None \<Longrightarrow> files w name = None \<Longrightarrow>
     OpenFile flt name O_RDONLY w =
       (Inl (IOError True (''open '' @ name @ '': no such file or directory'')),
        logCall (CallOpenFile name O_RDONLY) w)"
  by (simp add: OpenFile_def Let_def)

lemma OpenFile_fault:
  "flt (CallOpenFile name flag) = Some e \<Longrightarrow>
     OpenFile flt name flag w = (Inl e, logCall (CallOpenFile name flag) w)"
  by (simp add: OpenFile_def Let_def)

lemma ReadAll_ok:
  "flt (CallReadAll name) = None \<Longrightarrow> files w name = Some c \<Longrightarrow>
     ReadAll flt name w = (Inr c, logCall (CallReadAll name) w)"
  by (simp add: ReadAll_def Let_def)

lemma ReadAll_fault:
  "flt (CallReadAll name) = Some e \<Longrightarrow>
     ReadAll flt name w = (Inl e, logCall (CallReadAll name) w)"
  by (simp add: ReadAll_def Let_def)

lemma Write_ok:
  "flt (CallWrite name b) = None \<Longrightarrow> files w name = Some old \<Longrightarrow>
     Write flt name b w =
       (None, (logCall (CallWrite name b) w)\<lparr>files := (files w)(name \<mapsto> writeAt0 old b)\<rparr>)"
  by (simp add: Write_def Let_def)

lemma Write_fault:
  "flt (CallWrite name b) = Some e \<Longrightarrow>
     Write flt name b w = (Some e, logCall (CallWrite name b) w)"
  by (simp add: Write_def Let_def)

lemma ReadCounter_ok:
  "flt (CallReadAll name) = None \<Longrightarrow> files w name = Some c \<Longrightarrow>
     ReadCounter flt name w =
       (Inr (case ParseInt (TrimSpace c) of Inl _ \<Rightarrow> 0 | Inr v \<Rightarrow> v), logCall (CallReadAll name) w)"
  by (simp add: ReadCounter_def ReadAll_ok split: sum.splits)

lemma ReadCounter_fault:
  "flt (CallReadAll name) = Some e \<Longrightarrow>
     ReadCounter flt name w = (Inl (''read counter: '' @ Error e), logCall (CallReadAll name) w)"
  by (simp add: ReadCounter_def ReadAll_fault)

lemma WriteCounter_ok:
  "flt (CallSeek name) = None \<Longrightarrow> flt (CallWrite name (Sprint v)) = None \<Longrightarrow>
   files w name = Some old \<Longrightarrow>
     WriteCounter flt name v w =
       (None, (logCall (CallWrite name (Sprint v)) (logCall (CallSeek name) w))
                \<lparr>files := (files w)(name \<mapsto> writeAt0 old (Sprint v))\<rparr>)"
  by (simp add: WriteCounter_def Seek_def Write_ok files_logCall)

lemma WriteCounter_seek_fault:
  "flt (CallSeek name) = Some e \<Longrightarrow>
     WriteCounter flt name v w = (Some (''write counter: '' @ Error e), logCall (CallSeek name) w)"
  by (simp add: WriteCounter_def Seek_def)

lemma WriteCounter_write_fault:
  "flt (CallSeek name) = None \<Longrightarrow> flt (CallWrite name (Sprint v)) = Some e \<Longrightarrow>
     WriteCounter flt name v w =
       (Some (''write counter: '' @ Error e),
        logCall (CallWrite name (Sprint v)) (logCall (CallSeek name) w))"
  by (simp add: WriteCounter_def Seek_def Write_fault)

lemma OpenFile_rw:
  "flt (CallOpenFile name flag) = None \<Longrightarrow> flag \<noteq> O_RDONLY \<Longrightarrow>
     OpenFile flt name flag w =
       (Inr (), (logCall (CallOpenFile name flag) w)
          \<lparr>files := (files w)(name \<mapsto> (case files w name of None \<Rightarrow> [] | Some c \<Rightarrow> c))\<rparr>)"
  by (cases "files w name") (simp_all add: OpenFile_def Let_def map_upd_triv logCall_def)

lemma createSteps_noFault:
  assumes req: "requestPaste r = Inr p" and ne: "p \<noteq> []"
    and c0: "c0 = (case files w counterPath of None \<Rightarrow> [] | Some c \<Rightarrow> c)"
    and v: "v = incr64 (case ParseInt (TrimSpace c0) of Inl _ \<Rightarrow> 0 | Inr x \<Rightarrow> x)"
    and enc: "EncodeInt64 (hashidMaker hr) [v] = Inr hash"
    and q0: "q0 = (case files w (pastePath v hash) of None \<Rightarrow> [] | Some c \<Rightarrow> c)"
  shows "fst (createSteps hr noFault r w) = Created v hash \<and>
    files (snd (createSteps hr noFault r w)) =
      (files w)(counterPath \<mapsto> writeAt0 c0 (Sprint v), pastePath v hash \<mapsto> writeAt0 q0 p) \<and>
    trace (snd (createSteps hr noFault r w)) =
      trace w @ [CallOpenFile counterPath O_CREATE_RDWR, CallReadAll counterPath,
        CallSeek counterPath, CallWrite counterPath (Sprint v),
        CallOpenFile (pastePath v hash) O_CREATE_WRONLY, CallWrite (pastePath v hash) p]"
  using req ne enc pastePath_not_counterPath [of v hash]
  unfolding c0 v q0 createSteps_def
  by (simp add: OpenFile_rw ReadCounter_ok WriteCounter_ok Write_ok files_logCall trace_logCall
      noFault_def Let_def)

lemma counterPath_not_pastePath: "counterPath \<noteq> pastePath k hash"
  using pastePath_not_counterPath [of k hash] by simp

lemma storeInv_touch:
  "storeInv hr fs n \<Longrightarrow>
     storeInv hr (fs(counterPath \<mapsto> (case fs counterPath of None \<Rightarrow> [] | Some c \<Rightarrow> c))) n"
  unfolding storeInv_def by (auto split: option.splits)

lemma storeInv_counter_upd:
  "storeInv hr fs n \<Longrightarrow> n \<le> m \<Longrightarrow> storeInv hr (fs(counterPath \<mapsto> Sprint m)) m"
  unfolding storeInv_def by (auto simp: dom_def) (metis order_trans)

lemma storeInv_paste_upd:
  "storeInv hr fs m \<Longrightarrow> 0 < k \<Longrightarrow> k \<le> m \<Longrightarrow> EncodeInt64 (hashidMaker hr) [k] = Inr hash \<Longrightarrow>
     storeInv hr (fs(pastePath k hash \<mapsto> q)) m"
  unfolding storeInv_def
  by (auto simp: dom_def pastePath_not_counterPath counterPath_not_pastePath)

lemma storeInv_empty: "storeInv hr Map.empty 0"
  by (simp add: storeInv_def)

lemma storeInv_read:
  assumes "storeInv hr fs n" "n < 2 ^ 63"
  shows "(case ParseInt (TrimSpace (case fs counterPath of None \<Rightarrow> [] | Some c \<Rightarrow> c)) of
            Inl _ \<Rightarrow> 0 | Inr x \<Rightarrow> x) = n"
    and "length (case fs counterPath of None \<Rightarrow> [] | Some c \<Rightarrow> c) \<le> length (Sprint (n + 1))"
  using assms length_Sprint_mono [of n "n + 1"]
  by (auto simp: storeInv_def parse_Sprint parse_empty split: option.splits sum.splits)

lemmas io_simps = OpenFile_rw OpenFile_fault ReadCounter_ok ReadCounter_fault WriteCounter_ok
  WriteCounter_seek_fault WriteCounter_write_fault Write_ok Write_fault files_logCall
  trace_logCall Let_def

lemma createSteps_step:
  assumes inv: "storeInv hr (files w) n" and bound: "n < 2 ^ 63 - 1"
  shows "(storeInv hr (files (snd (createSteps hr flt r w))) n \<and>
          (\<forall>k h. fst (createSteps hr flt r w) \<noteq> Created k h)) \<or>
         (storeInv hr (files (snd (createSteps hr flt r w))) (n + 1) \<and>
          (\<forall>k h. fst (createSteps hr flt r w) = Created k h \<longrightarrow>
             k = n + 1 \<and> EncodeInt64 (hashidMaker hr) [k] = Inr h))"
proof -
  define c0 where "c0 = (case files w counterPath of None \<Rightarrow> [] | Some c \<Rightarrow> c)"
  have n0: "0 \<le> n" using inv by (rule storeInv_nonneg)
  have val: "(case ParseInt (TrimSpace c0) of Inl _ \<Rightarrow> 0 | Inr x \<Rightarrow> x) = n"
    and len: "length c0 \<le> length (Sprint (n + 1))"
    using storeInv_read [OF inv] bound unfolding c0_def by simp_all
  have inc: "incr64 n = n + 1" using n0 bound by (simp add: incr64_succ)
  have wr: "writeAt0 c0 (Sprint (n + 1)) = Sprint (n + 1)"
    using len by (rule writeAt0_short)
  have inv1: "storeInv hr ((files w)(counterPath \<mapsto> c0)) n"
    using storeInv_touch [OF inv] unfolding c0_def .
  have inv2: "storeInv hr ((files w)(counterPath \<mapsto> Sprint (n + 1))) (n + 1)"
    using storeInv_counter_upd [OF inv, of "n + 1"] by simp
  have inv3: "storeInv hr ((files w)(counterPath \<mapsto> Sprint (n + 1), pastePath (n + 1) h \<mapsto> q)) (n + 1)"
    if "EncodeInt64 (hashidMaker hr) [n + 1] = Inr h" for h q
    using storeInv_paste_upd [OF inv2 _ _ that, of q] n0 by simp
  let ?O1 = "CallOpenFile counterPath O_CREATE_RDWR"
  let ?W1 = "CallWrite counterPath (Sprint (n + 1))"
  show ?thesis
  proof (cases "requestPaste r")
    case (Inl e)
    then show ?thesis using inv by (simp add: createSteps_def)
  next
    case (Inr p)
    show ?thesis
    proof (cases "p = []")
      case True
      then show ?thesis using inv Inr by (simp add: createSteps_def)
    next
      case ne: False
      consider (f1) e where "flt ?O1 = Some e"
        | (f2) e where "flt ?O1 = None" "flt (CallReadAll counterPath) = Some e"
        | (f3) e where "flt ?O1 = None" "flt (CallReadAll counterPath) = None"
            "flt (CallSeek counterPath) = Some e"
        | (f4) e where "flt ?O1 = None" "flt (CallReadAll counterPath) = None"
            "flt (CallSeek counterPath) = None" "flt ?W1 = Some e"
        | (ok) "flt ?O1 = None" "flt (CallReadAll counterPath) = None"
            "flt (CallSeek counterPath) = None" "flt ?W1 = None"
        by (cases "flt ?O1"; cases "flt (CallReadAll counterPath)";
            cases "flt (CallSeek counterPath)"; cases "flt ?W1") auto
      then show ?thesis
      proof cases
        case f1
        then show ?thesis using inv Inr ne by (simp add: createSteps_def io_simps)
      next
        case f2
        then show ?thesis using inv1 Inr ne
          by (simp add: createSteps_def io_simps c0_def [symmetric])
      next
        case f3
        then show ?thesis using inv1 Inr ne val inc
          by (simp add: createSteps_def io_simps c0_def [symmetric])
      next
        case f4
        then show ?thesis using inv1 Inr ne val inc
          by (simp add: createSteps_def io_simps c0_def [symmetric])
      next
        case ok
        show ?thesis
        proof (cases "EncodeInt64 (hashidMaker hr) [n + 1]")
          case (Inl e)
          then show ?thesis using ok inv2 Inr ne val inc wr
            by (simp add: createSteps_def io_simps c0_def [symmetric])
        next
          case enc: (Inr hash)
          let ?pp = "pastePath (n + 1) hash"
          have fresh: "files w ?pp = None"
            using inv by (rule storeInv_fresh) simp
          consider (g1) e where "flt (CallOpenFile ?pp O_CREATE_WRONLY) = Some e"
            | (g2) e where "flt (CallOpenFile ?pp O_CREATE_WRONLY) = None"
                "flt (CallWrite ?pp p) = Some e"
            | (g3) "flt (CallOpenFile ?pp O_CREATE_WRONLY) = None" "flt (CallWrite ?pp p) = None"
            by (cases "flt (CallOpenFile ?pp O_CREATE_WRONLY)"; cases "flt (CallWrite ?pp p)") auto
          then show ?thesis
          proof cases
            case g1
            then show ?thesis using ok enc inv2 Inr ne val inc wr
              by (simp add: createSteps_def io_simps c0_def [symmetric])
          next
            case g2
            then show ?thesis using ok enc inv3 [OF enc] Inr ne val inc wr fresh
              by (simp add: createSteps_def io_simps c0_def [symmetric]
                  pastePath_not_counterPath)
          next
            case g3
            then show ?thesis using ok enc inv3 [OF enc] Inr ne val inc wr fresh
              by (simp add: createSteps_def io_simps c0_def [symmetric]
                  pastePath_not_counterPath)
          qed
        qed
      qed
    qed
  qed
qed

lemma serveAll_ordinals:
  "storeInv hr (files w) n \<Longrightarrow> n + int (length reqs) < 2 ^ 63 \<Longrightarrow>
     sorted_wrt (<) (ordinals (fst (serveAll hr reqs w))) \<and>
     (\<forall>k \<in> set (ordinals (fst (serveAll hr reqs w))). n < k \<and> k \<le> n + int (length reqs)) \<and>
     (\<exists>n'. n \<le> n' \<and> n' \<le> n + int (length reqs) \<and>
        storeInv hr (files (snd (serveAll hr reqs w))) n')"
proof (induction reqs arbitrary: w n)
  case Nil
  then show ?case by auto
next
  case (Cons fr rest)
  obtain flt r where fr: "fr = (flt, r)" by (cases fr)
  obtain out w1 where step: "createSteps hr flt r w = (out, w1)" by (cases "createSteps hr flt r w")
  obtain outs w2 where run: "serveAll hr rest w1 = (outs, w2)" by (cases "serveAll hr rest w1")
  have all: "serveAll hr (fr # rest) w = (out # outs, w2)"
    by (simp add: fr step run)
  have bound: "n < 2 ^ 63 - 1" using Cons.prems(2) by simp
  from createSteps_step [OF Cons.prems(1) bound, of flt r] step
  consider (same) "storeInv hr (files w1) n" "\<forall>k h. out \<noteq> Created k h"
    | (bump) "storeInv hr (files w1) (n + 1)" "\<forall>k h. out = Created k h \<longrightarrow> k = n + 1"
    by auto
  then show ?case
  proof cases
    case same
    have "n + int (length rest) < 2 ^ 63" using Cons.prems(2) by simp
    from Cons.IH [OF same(1) this]
    have s: "sorted_wrt (<) (ordinals outs)"
      and b: "\<forall>k \<in> set (ordinals outs). n < k \<and> k \<le> n + int (length rest)"
      and i: "\<exists>n'. n \<le> n' \<and> n' \<le> n + int (length rest) \<and> storeInv hr (files w2) n'"
      by (simp_all add: run)
    have o: "ordinals (out # outs) = ordinals outs"
      using same(2) by (cases out) simp_all
    have "\<forall>k \<in> set (ordinals outs). n < k \<and> k \<le> n + int (length (fr # rest))"
      using b by auto
    moreover have "\<exists>n'. n \<le> n' \<and> n' \<le> n + int (length (fr # rest)) \<and> storeInv hr (files w2) n'"
      using i by auto
    ultimately show ?thesis using s by (simp add: all o)
  next
    case bump
    have "n + 1 + int (length rest) < 2 ^ 63" using Cons.prems(2) by simp
    from Cons.IH [OF bump(1) this]
    have s: "sorted_wrt (<) (ordinals outs)"
      and b: "\<forall>k \<in> set (ordinals outs). n + 1 < k \<and> k \<le> n + 1 + int (length rest)"
      and i: "\<exists>n'. n + 1 \<le> n' \<and> n' \<le> n + 1 + int (length rest) \<and> storeInv hr (files w2) n'"
      by (simp_all add: run)
    have o: "ordinals (out # outs) = ordinals outs \<or> ordinals (out # outs) = (n + 1) # ordinals outs"
      using bump(2) by (cases out) simp_all
    have b': "\<forall>k \<in> set (ordinals outs). n < k \<and> k \<le> n + int (length (fr # rest))"
      using b by auto
    have i': "\<exists>n'. n \<le> n' \<and> n' \<le> n + int (length (fr # rest)) \<and> storeInv hr (files w2) n'"
    proof -
      from i obtain m where m: "n + 1 \<le> m" "m \<le> n + 1 + int (length rest)"
        "storeInv hr (files w2) m" by blast
      then have "n \<le> m \<and> m \<le> n + int (length (fr # rest)) \<and> storeInv hr (files w2) m"
        by simp
      then show ?thesis ..
    qed
    from o show ?thesis
    proof
      assume "ordinals (out # outs) = ordinals outs"
      then show ?thesis using s b' i' by (simp add: all)
    next
      assume "ordinals (out # outs) = (n + 1) # ordinals outs"
      then show ?thesis using s b b' i' by (simp add: all)
    qed
  qed
qed

section \<open>Creating a paste\<close>

lemma parse_abc: "ParseInt (TrimSpace ''abc'') = Inl ErrSyntax"
  by code_simp

lemma incr64_0: "incr64 0 = 1"
  by (simp add: incr64_def)

lemma fst_CreatePaste:
  "fst (CreatePaste hr flt r w) = createResponse r (fst (createSteps hr flt r w))"
  by (simp add: CreatePaste_def split: prod.splits)

lemma snd_CreatePaste: "snd (CreatePaste hr flt r w) = snd (createSteps hr flt r w)"
  by (simp add: CreatePaste_def split: prod.splits)

lemma counterValue_inv: "storeInv hr fs n \<Longrightarrow> n < 2 ^ 63 \<Longrightarrow> counterValue fs = n"
  using storeInv_read(1) [of hr fs n] by (simp add: counterValue_def)

lemma storeInv_absent: "storeInv hr fs n \<Longrightarrow> fs counterPath = None \<Longrightarrow> n = 0"
  unfolding storeInv_def by auto

lemma createSteps_inv:
  assumes inv: "storeInv hr (files w) n" and bound: "n < 2 ^ 63 - 1"
    and req: "requestPaste r = Inr p" and ne: "p \<noteq> []"
    and enc: "EncodeInt64 (hashidMaker hr) [n + 1] = Inr hash"
  shows "fst (createSteps hr noFault r w) = Created (n + 1) hash \<and>
    files (snd (createSteps hr noFault r w)) =
      (files w)(counterPath \<mapsto> Sprint (n + 1), pastePath (n + 1) hash \<mapsto> p) \<and>
    trace (snd (createSteps hr noFault r w)) =
      trace w @ [CallOpenFile counterPath O_CREATE_RDWR, CallReadAll counterPath,
        CallSeek counterPath, CallWrite counterPath (Sprint (n + 1)),
        CallOpenFile (pastePath (n + 1) hash) O_CREATE_WRONLY,
        CallWrite (pastePath (n + 1) hash) p]"
proof -
  define c0 where "c0 = (case files w counterPath of None \<Rightarrow> [] | Some c \<Rightarrow> c)"
  have n0: "0 \<le> n" using inv by (rule storeInv_nonneg)
  have val: "(case ParseInt (TrimSpace c0) of Inl _ \<Rightarrow> 0 | Inr x \<Rightarrow> x) = n"
    and len: "length c0 \<le> length (Sprint (n + 1))"
    using storeInv_read [OF inv] bound unfolding c0_def by simp_all
  have v: "n + 1 = incr64 (case ParseInt (TrimSpace c0) of Inl _ \<Rightarrow> 0 | Inr x \<Rightarrow> x)"
    using n0 bound val by (simp add: incr64_succ)
  have wr: "writeAt0 c0 (Sprint (n + 1)) = Sprint (n + 1)"
    using len by (rule writeAt0_short)
  have fresh: "files w (pastePath (n + 1) hash) = None"
    using inv by (rule storeInv_fresh) simp
  show ?thesis
    using createSteps_noFault [OF req ne c0_def v enc refl] wr fresh
    by (simp add: writeAt0_def)
qed

lemma createSteps_paste_write_fails:
  assumes inv: "storeInv hr (files w) n" and bound: "n < 2 ^ 63 - 1"
    and req: "requestPaste r = Inr p" and ne: "p \<noteq> []"
    and enc: "EncodeInt64 (hashidMaker hr) [n + 1] = Inr hash"
    and flt: "flt = noFault(CallWrite (pastePath (n + 1) hash) p := Some e)"
  shows "fst (createSteps hr flt r w) = Panicked (Error e) \<and>
    files (snd (createSteps hr flt r w)) counterPath = Some (Sprint (n + 1))"
proof -
  define c0 where "c0 = (case files w counterPath of None \<Rightarrow> [] | Some c \<Rightarrow> c)"
  have n0: "0 \<le> n" using inv by (rule storeInv_nonneg)
  have val: "(case ParseInt (TrimSpace c0) of Inl _ \<Rightarrow> 0 | Inr x \<Rightarrow> x) = n"
    and len: "length c0 \<le> length (Sprint (n + 1))"
    using storeInv_read [OF inv] bound unfolding c0_def by simp_all
  have inc: "incr64 n = n + 1" using n0 bound by (simp add: incr64_succ)
  have wr: "writeAt0 c0 (Sprint (n + 1)) = Sprint (n + 1)"
    using len by (rule writeAt0_short)
  show ?thesis
    using req ne enc val inc wr
    by (simp add: createSteps_def io_simps c0_def [symmetric] flt noFault_def
        pastePath_not_counterPath counterPath_not_pastePath)
qed

lemma requestPaste_body:
  "\<not> HasPrefix (ContentType r) ''multipart/form-data'' \<Longrightarrow> length (Body r) \<le> MaxBodyLen \<Longrightarrow>
     requestPaste r = Inr (Body r)"
  by (simp add: requestPaste_def PasteFromBody_def)

lemma sampleRequest_paste: "length b \<le> MaxBodyLen \<Longrightarrow> requestPaste (sampleRequest b) = Inr b"
  by (simp add: requestPaste_body HasPrefix_def)

lemma counterValue_empty: "counterValue Map.empty = 0"
  by (simp add: counterValue_def parse_empty)

text \<open>
  Claim C4. A request whose payload is empty is answered 400 by \<open>CreatePaste\<close>, whatever
  the store holds and whatever the operating system would fail: the world is returned as
  it was, with the same files and the same trace, so the counter file is neither opened,
  read nor written and no ordinal is handed out.
\<close>

theorem CreatePaste_empty:
  "requestPaste r = Inr [] \<Longrightarrow>
     CreatePaste hr flt r w =
       (\<lparr>status = 400, headers = [], body = ''error: your paste is empty!'' @ [CHR 0x0A]\<rparr>, w)"
  by (simp add: CreatePaste_def createSteps_def createResponse_def)

theorem CreatePaste_empty_witness:
  "requestPaste \<lparr>ContentType = ''text/plain'', Body = [], Part = Inr ''unused'',
       RemoteAddr = ''1.2.3.4:5678'', Host = ''paste.example'', Scheme = []\<rparr> = Inr [] \<and>
   CreatePaste \<lparr>hashidMaker = \<lparr>EncodeInt64 = (\<lambda>ns. Inr ''abc''),
                  DecodeInt64WithError = (\<lambda>h. ([1], None))\<rparr>\<rparr>
     (\<lambda>c. Some (IOError False ''disk failure''))
     \<lparr>ContentType = ''text/plain'', Body = [], Part = Inr ''unused'',
       RemoteAddr = ''1.2.3.4:5678'', Host = ''paste.example'', Scheme = []\<rparr>
     \<lparr>files = [counterPath \<mapsto> ''41''], trace = []\<rparr> =
   (\<lparr>status = 400, headers = [], body = ''error: your paste is empty!'' @ [CHR 0x0A]\<rparr>,
    \<lparr>files = [counterPath \<mapsto> ''41''], trace = []\<rparr>)"
proof -
  have req: "requestPaste \<lparr>ContentType = ''text/plain'', Body = [], Part = Inr ''unused'',
       RemoteAddr = ''1.2.3.4:5678'', Host = ''paste.example'', Scheme = []\<rparr> = Inr []"
    by (simp add: requestPaste_def HasPrefix_def PasteFromBody_def)
  show ?thesis
    using req CreatePaste_empty [OF req] by simp
qed

text \<open>
  Claim C10. When the counter file exists and its text, white space trimmed, is no decimal
  \<open>int64\<close>, \<open>ReadCounter\<close> returns 0 and no error; the allocation that follows goes
  through with ordinal 1 and answers 200 instead of reporting a failure.
\<close>

theorem ReadCounter_unparsable:
  assumes c: "files w counterPath = Some c" and bad: "ParseInt (TrimSpace c) = Inl e"
    and req: "requestPaste r = Inr p" and ne: "p \<noteq> []"
    and enc: "EncodeInt64 (hashidMaker hr) [1] = Inr hash"
  shows "fst (ReadCounter noFault counterPath w) = Inr 0 \<and>
         fst (createSteps hr noFault r w) = Created 1 hash \<and>
         status (fst (CreatePaste hr noFault r w)) = 200"
proof -
  have v: "(1::int) = incr64 (case ParseInt (TrimSpace c) of Inl _ \<Rightarrow> 0 | Inr x \<Rightarrow> x)"
    using bad by (simp add: incr64_0)
  have c0: "c = (case files w counterPath of None \<Rightarrow> [] | Some c \<Rightarrow> c)"
    using c by simp
  have steps: "fst (createSteps hr noFault r w) = Created 1 hash"
    using createSteps_noFault [OF req ne c0 v enc refl] by simp
  have "fst (ReadCounter noFault counterPath w) = Inr 0"
    using c bad by (simp add: ReadCounter_ok noFault_def)
  then show ?thesis
    using steps by (simp add: fst_CreatePaste createResponse_def)
qed

theorem ReadCounter_unparsable_witness:
  "files \<lparr>files = [counterPath \<mapsto> ''abc''], trace = []\<rparr> counterPath = Some ''abc'' \<and>
   ParseInt (TrimSpace ''abc'') = Inl ErrSyntax \<and>
   requestPaste (sampleRequest ''hello'') = Inr ''hello'' \<and>
   fst (ReadCounter noFault counterPath \<lparr>files = [counterPath \<mapsto> ''abc''], trace = []\<rparr>) = Inr 0 \<and>
   fst (createSteps sampleRoutes noFault (sampleRequest ''hello'')
          \<lparr>files = [counterPath \<mapsto> ''abc''], trace = []\<rparr>) = Created 1 ''abc''"
proof -
  have req: "requestPaste (sampleRequest ''hello'') = Inr ''hello''"
    by (simp add: sampleRequest_paste MaxBodyLen_def)
  have c: "files \<lparr>files = [counterPath \<mapsto> ''abc''], trace = []\<rparr> counterPath = Some ''abc''"
    by simp
  show ?thesis
    using c req parse_abc
      ReadCounter_unparsable [OF c parse_abc req, of sampleRoutes "''abc''"]
    by simp
qed

text \<open>
  Claim C3. On a store the program has left behind after \<open>n\<close> allocations, with
  \<open>n + 1\<close> still an \<open>int64\<close>, an allocation that meets no fault hands out the counter
  value plus one, where a missing counter record counts as 0, and leaves the counter at
  that value. Its calls to the operating system come in this order: open, read, seek and
  write of the counter file, then open and write of the paste file; when the write of the
  paste fails, the request panics and the counter file already holds the new value. Over
  any sequence of requests, with any faults, the ordinals handed out are strictly
  increasing, pairwise distinct and greater than the counter value at the start, so the
  first one on an empty store is 1.
\<close>

theorem CreatePaste_allocates:
  assumes inv: "storeInv hr (files w) n" and bound: "n < 2 ^ 63 - 1"
    and req: "requestPaste r = Inr p" and ne: "p \<noteq> []"
    and enc: "EncodeInt64 (hashidMaker hr) [n + 1] = Inr hash"
  shows "fst (createSteps hr noFault r w) = Created (counterValue (files w) + 1) hash \<and>
    (files w counterPath = None \<longrightarrow> counterValue (files w) = 0) \<and>
    counterValue (files (snd (createSteps hr noFault r w))) = counterValue (files w) + 1 \<and>
    trace (snd (createSteps hr noFault r w)) =
      trace w @ [CallOpenFile counterPath O_CREATE_RDWR, CallReadAll counterPath,
        CallSeek counterPath, CallWrite counterPath (Sprint (counterValue (files w) + 1)),
        CallOpenFile (pastePath (counterValue (files w) + 1) hash) O_CREATE_WRONLY,
        CallWrite (pastePath (counterValue (files w) + 1) hash) p] \<and>
    (\<forall>e. fst (createSteps hr (noFault(CallWrite (pastePath (n + 1) hash) p := Some e)) r w)
           = Panicked (Error e) \<and>
         counterValue (files (snd (createSteps hr
           (noFault(CallWrite (pastePath (n + 1) hash) p := Some e)) r w)))
           = counterValue (files w) + 1) \<and>
    (\<forall>reqs. n + int (length reqs) < 2 ^ 63 \<longrightarrow>
       sorted_wrt (<) (ordinals (fst (serveAll hr reqs w))) \<and>
       distinct (ordinals (fst (serveAll hr reqs w))) \<and>
       (\<forall>k \<in> set (ordinals (fst (serveAll hr reqs w))). counterValue (files w) < k))"
proof -
  have n0: "0 \<le> n" using inv by (rule storeInv_nonneg)
  have cv: "counterValue (files w) = n"
    using inv bound by (simp add: counterValue_inv)
  have rd: "ParseInt (TrimSpace (Sprint (n + 1))) = Inr (n + 1)"
    using n0 bound by (simp add: parse_Sprint)
  have cv': "counterValue fs = n + 1" if "fs counterPath = Some (Sprint (n + 1))" for fs
    using that rd by (simp add: counterValue_def)
  note ok = createSteps_inv [OF inv bound req ne enc]
  have a: "fst (createSteps hr noFault r w) = Created (counterValue (files w) + 1) hash"
    using ok cv by simp
  have b: "files w counterPath = None \<longrightarrow> counterValue (files w) = 0"
    using storeInv_absent [OF inv] cv by simp
  have c: "counterValue (files (snd (createSteps hr noFault r w))) = counterValue (files w) + 1"
    using ok cv by (intro cv' [THEN trans]) (simp_all add: counterPath_not_pastePath)
  have d: "trace (snd (createSteps hr noFault r w)) =
      trace w @ [CallOpenFile counterPath O_CREATE_RDWR, CallReadAll counterPath,
        CallSeek counterPath, CallWrite counterPath (Sprint (counterValue (files w) + 1)),
        CallOpenFile (pastePath (counterValue (files w) + 1) hash) O_CREATE_WRONLY,
        CallWrite (pastePath (counterValue (files w) + 1) hash) p]"
    using ok cv by simp
  have e: "fst (createSteps hr (noFault(CallWrite (pastePath (n + 1) hash) p := Some e)) r w)
           = Panicked (Error e) \<and>
         counterValue (files (snd (createSteps hr
           (noFault(CallWrite (pastePath (n + 1) hash) p := Some e)) r w)))
           = counterValue (files w) + 1" for e
    using createSteps_paste_write_fails [OF inv bound req ne enc refl, of e] cv cv' by simp
  have f: "sorted_wrt (<) (ordinals (fst (serveAll hr reqs w))) \<and>
       distinct (ordinals (fst (serveAll hr reqs w))) \<and>
       (\<forall>k \<in> set (ordinals (fst (serveAll hr reqs w))). counterValue (files w) < k)"
    if "n + int (length reqs) < 2 ^ 63" for reqs
    using serveAll_ordinals [OF inv that] cv strict_sorted_iff by auto
  show ?thesis using a b c d e f by blast
qed

theorem CreatePaste_allocates_witness:
  "storeInv sampleRoutes (files emptyWorld) 0 \<and>
   requestPaste (sampleRequest ''hello'') = Inr ''hello'' \<and>
   EncodeInt64 (hashidMaker sampleRoutes) [0 + 1] = Inr ''abc'' \<and>
   fst (createSteps sampleRoutes noFault (sampleRequest ''hello'') emptyWorld) = Created 1 ''abc'' \<and>
   trace (snd (createSteps sampleRoutes noFault (sampleRequest ''hello'') emptyWorld)) =
     [CallOpenFile counterPath O_CREATE_RDWR, CallReadAll counterPath, CallSeek counterPath,
      CallWrite counterPath (Sprint 1), CallOpenFile (pastePath 1 ''abc'') O_CREATE_WRONLY,
      CallWrite (pastePath 1 ''abc'') ''hello'']"
proof -
  have inv: "storeInv sampleRoutes (files emptyWorld) 0"
    by (simp add: emptyWorld_def storeInv_empty)
  have req: "requestPaste (sampleRequest ''hello'') = Inr ''hello''"
    by (simp add: sampleRequest_paste MaxBodyLen_def)
  have enc: "EncodeInt64 (hashidMaker sampleRoutes) [0 + 1] = Inr ''abc''"
    by simp
  have cv: "counterValue (files emptyWorld) = 0"
    by (simp add: emptyWorld_def counterValue_empty)
  show ?thesis
    using inv req enc CreatePaste_allocates [OF inv _ req _ enc] cv
    by (simp add: emptyWorld_def)
qed

section \<open>The persisted layout and retrieval\<close>

lemma length_FormatUint_le: "n < 10 ^ Suc k \<Longrightarrow> length (FormatUint n) \<le> Suc k"
proof (induction k arbitrary: n)
  case 0
  then show ?case by (simp add: FormatUint_small)
next
  case (Suc k)
  show ?case
  proof (cases "n < 10")
    case True
    then show ?thesis by (simp add: FormatUint_small)
  next
    case False
    have "n < 10 ^ Suc k * 10" using Suc.prems by (simp add: mult.commute)
    then have "n div 10 < 10 ^ Suc k" by (rule less_mult_imp_div_less)
    then have "length (FormatUint (n div 10)) \<le> Suc k" by (rule Suc.IH)
    then show ?thesis using False by (simp add: FormatUint_big)
  qed
qed

lemma length_zeroPad: "length (zeroPad w s) = max w (length s)"
  by (simp add: zeroPad_def)

lemma length_Sprintf09d_ge: "0 \<le> v \<Longrightarrow> 9 \<le> length (Sprintf09d v)"
  by (simp add: Sprintf09d_def length_zeroPad)

lemma length_Sprintf09d: "0 \<le> v \<Longrightarrow> v < 10 ^ 9 \<Longrightarrow> length (Sprintf09d v) = 9"
proof -
  assume v: "0 \<le> v" "v < 10 ^ 9"
  then have "nat v < 10 ^ Suc 8" by (simp add: nat_less_iff)
  then have "length (FormatUint (nat v)) \<le> Suc 8" by (rule length_FormatUint_le)
  then show ?thesis using v by (simp add: Sprintf09d_def length_zeroPad)
qed

lemma Sprintf09d_digits: "0 \<le> v \<Longrightarrow> c \<in> set (Sprintf09d v) \<Longrightarrow> isDigit c"
  using zeroPad_digits [of "FormatUint (nat v)" 9] FormatUint_digits [of _ "nat v"]
  by (auto simp: Sprintf09d_def)

lemma hd_FormatUint: "0 < n \<Longrightarrow> hd (FormatUint n) \<noteq> CHR ''0''"
proof (induction n rule: FormatUint.induct)
  case (1 n)
  show ?case
  proof (cases "n < 10")
    case True
    have "(of_char (digitChar n) :: nat) \<noteq> of_char (CHR ''0'')"
      using True "1.prems" by (simp add: of_char_digitChar)
    then show ?thesis using True by (auto simp: FormatUint_small)
  next
    case False
    then have "0 < n div 10" by simp
    then have "hd (FormatUint (n div 10)) \<noteq> CHR ''0''" using "1.IH" False by simp
    then show ?thesis using False FormatUint_not_Nil [of "n div 10"]
      by (simp add: FormatUint_big)
  qed
qed

lemma Sprint_decimal:
  assumes "0 < v"
  shows "(\<forall>c \<in> set (Sprint v). isDigit c) \<and> decVal (Sprint v) = nat v \<and>
         hd (Sprint v) \<noteq> CHR ''0''"
  using assms FormatUint_digits [of _ "nat v"] hd_FormatUint [of "nat v"]
  by (simp add: Sprint_nonneg decVal_FormatUint)

lemma pastePath_text:
  "pastePath k hash = DataDir @ ''/pastes/'' @ Sprintf09d k @ ''_'' @ hash"
  by (simp add: pastePath_def)

lemma storeInv_after:
  assumes inv: "storeInv hr (files w) n" and bound: "n < 2 ^ 63 - 1"
    and req: "requestPaste r = Inr p" and ne: "p \<noteq> []"
    and enc: "EncodeInt64 (hashidMaker hr) [n + 1] = Inr hash"
  shows "storeInv hr (files (snd (createSteps hr noFault r w))) (n + 1)"
  using createSteps_step [OF inv bound, of noFault r] createSteps_inv [OF inv bound req ne enc]
  by auto

lemma Sprint_1: "Sprint 1 = ''1''"
  by code_simp

lemma Sprintf09d_1: "Sprintf09d 1 = ''000000001''"
  by code_simp

lemma RetrievePaste_found:
  assumes "files w (pastePath (hd (lookupCounters hr hash)) hash) = Some content"
  shows "fst (RetrievePaste hr noFault hash w) = \<lparr>status = 200, headers = [], body = content\<rparr>"
  using assms
  by (simp add: RetrievePaste_def OpenFile_existing ReadAll_ok files_logCall noFault_def)

lemma RetrievePaste_absent:
  assumes "files w (pastePath (hd (lookupCounters hr hash)) hash) = None"
  shows "RetrievePaste hr noFault hash w =
     (\<lparr>status = 404, headers = [],
       body = ''paste with id '' @ [CHR 0x22] @ hash @ [CHR 0x22] @ '' was not found''
              @ [CHR 0x0A]\<rparr>,
      logCall (CallOpenFile (pastePath (hd (lookupCounters hr hash)) hash) O_RDONLY) w)"
  using assms by (simp add: RetrievePaste_def OpenFile_absent noFault_def)

lemma hd_lookupCounters:
  "hd (lookupCounters hr hash) =
     (case fst (DecodeInt64WithError (hashidMaker hr) hash) of [] \<Rightarrow> 0 | k # _ \<Rightarrow> k)"
  by (simp add: lookupCounters_def Let_def split: list.splits)

lemma storeInv_unissued:
  assumes inv: "storeInv hr fs n"
    and never: "\<forall>k. 0 < k \<and> k \<le> n \<longrightarrow> EncodeInt64 (hashidMaker hr) [k] \<noteq> Inr hash"
  shows "fs (pastePath key hash) = None"
proof (rule ccontr)
  assume "fs (pastePath key hash) \<noteq> None"
  then have "pastePath key hash \<in> dom fs" by auto
  from storeInv_files [OF inv this pastePath_not_counterPath]
  obtain k h where k: "0 < k" "k \<le> n" "EncodeInt64 (hashidMaker hr) [k] = Inr h"
    "pastePath key hash = pastePath k h" by blast
  then have "hash = h" using pastePath_inj by blast
  then show False using k never by blast
qed

text \<open>
  Claim C8. After an allocation on a store the program has left behind, the counter file
  holds \<open>Sprint\<close> of the new ordinal, which is its decimal text: digits only, no leading
  zero, denoting the ordinal. The payload is the whole content of the file
  \<open>pastes/<ordinal>_<hash>\<close> under the data directory, where the ordinal is printed with
  \<open>%09d\<close>: digits only, denoting the ordinal, at least nine of them and exactly nine
  below \<open>10^9\<close>. Every other file of the store has a name of that form, for an ordinal
  handed out and the hash the encoder gives it.
\<close>

theorem persisted_layout:
  assumes inv: "storeInv hr (files w) n" and bound: "n < 2 ^ 63 - 1"
    and req: "requestPaste r = Inr p" and ne: "p \<noteq> []"
    and enc: "EncodeInt64 (hashidMaker hr) [n + 1] = Inr hash"
  shows "fst (createSteps hr noFault r w) = Created (n + 1) hash \<and>
    files (snd (CreatePaste hr noFault r w)) counterPath = Some (Sprint (n + 1)) \<and>
    (\<forall>c \<in> set (Sprint (n + 1)). isDigit c) \<and> decVal (Sprint (n + 1)) = nat (n + 1) \<and>
    hd (Sprint (n + 1)) \<noteq> CHR ''0'' \<and>
    files (snd (CreatePaste hr noFault r w))
      (DataDir @ ''/pastes/'' @ Sprintf09d (n + 1) @ ''_'' @ hash) = Some p \<and>
    (\<forall>c \<in> set (Sprintf09d (n + 1)). isDigit c) \<and> decVal (Sprintf09d (n + 1)) = nat (n + 1) \<and>
    9 \<le> length (Sprintf09d (n + 1)) \<and>
    (n + 1 < 10 ^ 9 \<longrightarrow> length (Sprintf09d (n + 1)) = 9) \<and>
    (\<forall>name \<in> dom (files (snd (CreatePaste hr noFault r w))). name \<noteq> counterPath \<longrightarrow>
       (\<exists>k h. 0 < k \<and> k \<le> n + 1 \<and> EncodeInt64 (hashidMaker hr) [k] = Inr h \<and>
          name = DataDir @ ''/pastes/'' @ Sprintf09d k @ ''_'' @ h))"
proof -
  have n1: "0 < n + 1" "0 \<le> n + 1" using storeInv_nonneg [OF inv] by simp_all
  note ok = createSteps_inv [OF inv bound req ne enc]
  have a: "fst (createSteps hr noFault r w) = Created (n + 1) hash" using ok by simp
  have b: "files (snd (CreatePaste hr noFault r w)) counterPath = Some (Sprint (n + 1))"
    using ok by (simp add: snd_CreatePaste counterPath_not_pastePath)
  have c: "files (snd (CreatePaste hr noFault r w))
      (DataDir @ ''/pastes/'' @ Sprintf09d (n + 1) @ ''_'' @ hash) = Some p"
  proof -
    have "files (snd (CreatePaste hr noFault r w)) (pastePath (n + 1) hash) = Some p"
      using ok by (simp add: snd_CreatePaste)
    then show ?thesis by (simp only: pastePath_text)
  qed
  have d: "\<exists>k h. 0 < k \<and> k \<le> n + 1 \<and> EncodeInt64 (hashidMaker hr) [k] = Inr h \<and>
          name = DataDir @ ''/pastes/'' @ Sprintf09d k @ ''_'' @ h"
    if "name \<in> dom (files (snd (CreatePaste hr noFault r w)))" "name \<noteq> counterPath" for name
  proof -
    have "name \<in> dom (files (snd (createSteps hr noFault r w)))"
      using that(1) by (simp only: snd_CreatePaste)
    from storeInv_files [OF storeInv_after [OF inv bound req ne enc] this that(2)]
    show ?thesis by (simp only: pastePath_text)
  qed
  have e: "\<forall>c \<in> set (Sprintf09d (n + 1)). isDigit c"
    using Sprintf09d_digits [OF n1(2)] by blast
  have f: "n + 1 < 10 ^ 9 \<longrightarrow> length (Sprintf09d (n + 1)) = 9"
    using length_Sprintf09d [OF n1(2)] by blast
  show ?thesis
    using a b c d e f Sprint_decimal [OF n1(1)] decVal_Sprintf09d [OF n1(2)]
      length_Sprintf09d_ge [OF n1(2)]
    by blast
qed

theorem persisted_layout_witness:
  "storeInv sampleRoutes (files emptyWorld) 0 \<and>
   requestPaste (sampleRequest ''hello'') = Inr ''hello'' \<and>
   EncodeInt64 (hashidMaker sampleRoutes) [0 + 1] = Inr ''abc'' \<and>
   files (snd (CreatePaste sampleRoutes noFault (sampleRequest ''hello'') emptyWorld))
     ''/var/lib/paast/counter.dat'' = Some ''1'' \<and>
   files (snd (CreatePaste sampleRoutes noFault (sampleRequest ''hello'') emptyWorld))
     ''/var/lib/paast/pastes/000000001_abc'' = Some ''hello''"
proof -
  have inv: "storeInv sampleRoutes (files emptyWorld) 0"
    by (simp add: emptyWorld_def storeInv_empty)
  have req: "requestPaste (sampleRequest ''hello'') = Inr ''hello''"
    by (simp add: sampleRequest_paste MaxBodyLen_def)
  have enc: "EncodeInt64 (hashidMaker sampleRoutes) [0 + 1] = Inr ''abc''"
    by simp
  show ?thesis
    using inv req enc persisted_layout [OF inv _ req _ enc]
    by (simp add: Sprint_1 Sprintf09d_1 counterPath_def DataDir_def)
qed

text \<open>
  Claim C1. On a store the program has left behind, a raw request body of 1 to
  \<open>MaxBodyLen\<close> bytes, whatever the bytes, is answered 200 with the URL of the hash the
  encoder gives the new ordinal; when the decoder maps that hash back to the ordinal,
  \<open>RetrievePaste\<close> of the hash on the resulting store answers 200 with exactly the bytes
  of the body. No call of the operating system fails in either request.
\<close>

theorem paste_round_trip:
  assumes inv: "storeInv hr (files w) n" and bound: "n < 2 ^ 63 - 1"
    and raw: "\<not> HasPrefix (ContentType r) ''multipart/form-data''"
    and ne: "Body r \<noteq> []" and size: "length (Body r) \<le> MaxBodyLen"
    and enc: "EncodeInt64 (hashidMaker hr) [n + 1] = Inr hash"
    and dec: "fst (DecodeInt64WithError (hashidMaker hr) hash) = [n + 1]"
  shows "fst (CreatePaste hr noFault r w) =
       \<lparr>status = 200, headers = [],
        body = (if Scheme r \<noteq> [] then Scheme r else ''http'') @ ''://'' @ Host r @ ''/''
               @ hash @ [CHR 0x0A]\<rparr> \<and>
     fst (RetrievePaste hr noFault hash (snd (CreatePaste hr noFault r w))) =
       \<lparr>status = 200, headers = [], body = Body r\<rparr>"
proof -
  have req: "requestPaste r = Inr (Body r)"
    using raw size by (rule requestPaste_body)
  note ok = createSteps_inv [OF inv bound req ne enc]
  have key: "hd (lookupCounters hr hash) = n + 1"
    using dec by (simp add: hd_lookupCounters)
  have "files (snd (CreatePaste hr noFault r w)) (pastePath (hd (lookupCounters hr hash)) hash)
          = Some (Body r)"
    using ok key by (simp add: snd_CreatePaste)
  then have "fst (RetrievePaste hr noFault hash (snd (CreatePaste hr noFault r w))) =
       \<lparr>status = 200, headers = [], body = Body r\<rparr>"
    by (rule RetrievePaste_found)
  moreover have "fst (CreatePaste hr noFault r w) =
       \<lparr>status = 200, headers = [],
        body = (if Scheme r \<noteq> [] then Scheme r else ''http'') @ ''://'' @ Host r @ ''/''
               @ hash @ [CHR 0x0A]\<rparr>"
    using ok by (simp add: fst_CreatePaste createResponse_def)
  ultimately show ?thesis by simp
qed

theorem paste_round_trip_witness:
  "storeInv sampleRoutes (files emptyWorld) 0 \<and>
   \<not> HasPrefix (ContentType (sampleRequest (replicate MaxBodyLen (CHR 0x00)))) ''multipart/form-data'' \<and>
   Body (sampleRequest (replicate MaxBodyLen (CHR 0x00))) \<noteq> [] \<and>
   length (Body (sampleRequest (replicate MaxBodyLen (CHR 0x00)))) \<le> MaxBodyLen \<and>
   EncodeInt64 (hashidMaker sampleRoutes) [0 + 1] = Inr ''abc'' \<and>
   fst (DecodeInt64WithError (hashidMaker sampleRoutes) ''abc'') = [0 + 1] \<and>
   fst (RetrievePaste sampleRoutes noFault ''abc''
         (snd (CreatePaste sampleRoutes noFault
                (sampleRequest (replicate MaxBodyLen (CHR 0x00))) emptyWorld))) =
     \<lparr>status = 200, headers = [], body = replicate MaxBodyLen (CHR 0x00)\<rparr>"
proof -
  have inv: "storeInv sampleRoutes (files emptyWorld) 0"
    by (simp add: emptyWorld_def storeInv_empty)
  have raw: "\<not> HasPrefix (ContentType (sampleRequest (replicate MaxBodyLen (CHR 0x00)))) ''multipart/form-data''"
    by (simp add: HasPrefix_def)
  have ne: "Body (sampleRequest (replicate MaxBodyLen (CHR 0x00))) \<noteq> []"
    by (simp add: MaxBodyLen_def)
  have size: "length (Body (sampleRequest (replicate MaxBodyLen (CHR 0x00)))) \<le> MaxBodyLen"
    by simp
  have enc: "EncodeInt64 (hashidMaker sampleRoutes) [0 + 1] = Inr ''abc''"
    by simp
  have dec: "fst (DecodeInt64WithError (hashidMaker sampleRoutes) ''abc'') = [0 + 1]"
    by simp
  have "fst (RetrievePaste sampleRoutes noFault ''abc''
         (snd (CreatePaste sampleRoutes noFault
                (sampleRequest (replicate MaxBodyLen (CHR 0x00))) emptyWorld))) =
     \<lparr>status = 200, headers = [], body = Body (sampleRequest (replicate MaxBodyLen (CHR 0x00)))\<rparr>"
    using paste_round_trip [OF inv _ raw ne size enc dec] by simp
  then show ?thesis
    using inv raw ne size enc dec by simp
qed

lemma RetrievePaste_open_fault:
  assumes "flt (CallOpenFile (pastePath (hd (lookupCounters hr hash)) hash) O_RDONLY) = Some err"
  shows "RetrievePaste hr flt hash w =
     (if IsNotExist err
      then \<lparr>status = 404, headers = [],
             body = ''paste with id '' @ [CHR 0x22] @ hash @ [CHR 0x22] @ '' was not found''
                    @ [CHR 0x0A]\<rparr>
      else \<lparr>status = 500, headers = [], body = Error err\<rparr>,
      logCall (CallOpenFile (pastePath (hd (lookupCounters hr hash)) hash) O_RDONLY) w)"
  using assms by (simp add: RetrievePaste_def OpenFile_fault)

lemma RetrievePaste_open_absent:
  assumes "flt (CallOpenFile (pastePath (hd (lookupCounters hr hash)) hash) O_RDONLY) = None"
    and "files w (pastePath (hd (lookupCounters hr hash)) hash) = None"
  shows "RetrievePaste hr flt hash w =
     (\<lparr>status = 404, headers = [],
       body = ''paste with id '' @ [CHR 0x22] @ hash @ [CHR 0x22] @ '' was not found''
              @ [CHR 0x0A]\<rparr>,
      logCall (CallOpenFile (pastePath (hd (lookupCounters hr hash)) hash) O_RDONLY) w)"
  using assms by (simp add: RetrievePaste_def OpenFile_absent)

lemma pastePath_0_zz9: "pastePath 0 ''zz9'' = ''/var/lib/paast/pastes/000000000_zz9''"
  by code_simp

lemma pastePath_1_zz9: "pastePath 1 ''zz9'' = ''/var/lib/paast/pastes/000000001_zz9''"
  by code_simp

lemma createSteps_burned:
  assumes inv: "storeInv hr (files w) n" and bound: "n < 2 ^ 63 - 1"
    and req: "requestPaste r = Inr p" and ne: "p \<noteq> []"
    and enc: "EncodeInt64 (hashidMaker hr) [n + 1] = Inr hash"
    and flt: "flt = noFault(CallWrite (pastePath (n + 1) hash) p := Some e)"
  shows "files (snd (createSteps hr flt r w)) (pastePath (n + 1) hash) = Some []"
proof -
  define c0 where "c0 = (case files w counterPath of None \<Rightarrow> [] | Some c \<Rightarrow> c)"
  have n0: "0 \<le> n" using inv by (rule storeInv_nonneg)
  have val: "(case ParseInt (TrimSpace c0) of Inl _ \<Rightarrow> 0 | Inr x \<Rightarrow> x) = n"
    using storeInv_read(1) [OF inv] bound unfolding c0_def by simp
  have inc: "incr64 n = n + 1" using n0 bound by (simp add: incr64_succ)
  have fresh: "files w (pastePath (n + 1) hash) = None"
    using inv by (rule storeInv_fresh) simp
  show ?thesis
    using req ne enc val inc fresh
    by (simp add: createSteps_def io_simps c0_def [symmetric] flt noFault_def
        pastePath_not_counterPath counterPath_not_pastePath)
qed

text \<open>
  Claim C5, as stated, fails in three ways. The handler drops the error of the decoder
  and puts 0 in only when the slice it got is empty: for a decoder that reports a
  mismatch and still returns the number 7, the file looked up is the one of ordinal 7,
  not of ordinal 0. When the open fails for another reason than absence, as it does for
  a word of 246 letters, whose file name is longer than the file system takes, the answer
  is 500, not 404. And a hash that was never returned to a client resolves with 200 and
  an empty body when its ordinal was burned by a request that created the paste file and
  then failed to write it.
\<close>

theorem RetrievePaste_not_always_404:
  "snd (DecodeInt64WithError
         \<lparr>EncodeInt64 = (\<lambda>ns. Inr ''abc''),
          DecodeInt64WithError = (\<lambda>h. ([7], Some ''mismatch between encode and decode''))\<rparr>
         ''zz9'') \<noteq> None \<and>
   trace (snd (RetrievePaste
     \<lparr>hashidMaker = \<lparr>EncodeInt64 = (\<lambda>ns. Inr ''abc''),
        DecodeInt64WithError = (\<lambda>h. ([7], Some ''mismatch between encode and decode''))\<rparr>\<rparr>
     noFault ''zz9'' emptyWorld)) =
     [CallOpenFile ''/var/lib/paast/pastes/000000007_zz9'' O_RDONLY] \<and>
   pastePath 0 ''zz9'' = ''/var/lib/paast/pastes/000000000_zz9'' \<and>
   validHash (replicate 246 (CHR ''a'')) \<and>
   fst (RetrievePaste
     \<lparr>hashidMaker = \<lparr>EncodeInt64 = (\<lambda>ns. Inr ''abc''),
        DecodeInt64WithError = (\<lambda>h. ([], Some ''mismatch between encode and decode''))\<rparr>\<rparr>
     (\<lambda>c. Some (IOError False ''file name too long'')) (replicate 246 (CHR ''a'')) emptyWorld) =
     \<lparr>status = 500, headers = [], body = ''file name too long''\<rparr> \<and>
   fst (createSteps sampleRoutes
     (noFault(CallWrite (pastePath 1 ''abc'') ''hello'' :=
        Some (IOError False ''no space left on device'')))
     (sampleRequest ''hello'') emptyWorld) = Panicked ''no space left on device'' \<and>
   fst (RetrievePaste sampleRoutes noFault ''abc''
     (snd (createSteps sampleRoutes
       (noFault(CallWrite (pastePath 1 ''abc'') ''hello'' :=
          Some (IOError False ''no space left on device'')))
       (sampleRequest ''hello'') emptyWorld))) =
     \<lparr>status = 200, headers = [], body = []\<rparr>"
proof -
  have p7: "pastePath 7 ''zz9'' = ''/var/lib/paast/pastes/000000007_zz9''"
    by code_simp
  have a: "trace (snd (RetrievePaste
     \<lparr>hashidMaker = \<lparr>EncodeInt64 = (\<lambda>ns. Inr ''abc''),
        DecodeInt64WithError = (\<lambda>h. ([7], Some ''mismatch between encode and decode''))\<rparr>\<rparr>
     noFault ''zz9'' emptyWorld)) =
     [CallOpenFile ''/var/lib/paast/pastes/000000007_zz9'' O_RDONLY]"
    by (simp add: RetrievePaste_def OpenFile_absent noFault_def emptyWorld_def trace_logCall
        lookupCounters_def p7)
  have b: "validHash (replicate 246 (CHR ''a''))"
    by (simp add: validHash_def Alphabet_def)
  have c: "fst (RetrievePaste
     \<lparr>hashidMaker = \<lparr>EncodeInt64 = (\<lambda>ns. Inr ''abc''),
        DecodeInt64WithError = (\<lambda>h. ([], Some ''mismatch between encode and decode''))\<rparr>\<rparr>
     (\<lambda>c. Some (IOError False ''file name too long'')) (replicate 246 (CHR ''a'')) emptyWorld) =
     \<lparr>status = 500, headers = [], body = ''file name too long''\<rparr>"
    by (simp add: RetrievePaste_open_fault)
  have inv: "storeInv sampleRoutes (files emptyWorld) 0"
    by (simp add: emptyWorld_def storeInv_empty)
  have req: "requestPaste (sampleRequest ''hello'') = Inr ''hello''"
    by (simp add: sampleRequest_paste MaxBodyLen_def)
  have enc: "EncodeInt64 (hashidMaker sampleRoutes) [0 + 1] = Inr ''abc''"
    by simp
  have d: "fst (createSteps sampleRoutes
     (noFault(CallWrite (pastePath 1 ''abc'') ''hello'' :=
        Some (IOError False ''no space left on device'')))
     (sampleRequest ''hello'') emptyWorld) = Panicked ''no space left on device''"
    using createSteps_paste_write_fails [OF inv _ req _ enc, of _ "IOError False ''no space left on device''"]
    by simp
  have "files (snd (createSteps sampleRoutes
       (noFault(CallWrite (pastePath 1 ''abc'') ''hello'' :=
          Some (IOError False ''no space left on device'')))
       (sampleRequest ''hello'') emptyWorld)) (pastePath 1 ''abc'') = Some []"
    using createSteps_burned [OF inv _ req _ enc, of _ "IOError False ''no space left on device''"]
    by simp
  then have e: "fst (RetrievePaste sampleRoutes noFault ''abc''
     (snd (createSteps sampleRoutes
       (noFault(CallWrite (pastePath 1 ''abc'') ''hello'' :=
          Some (IOError False ''no space left on device'')))
       (sampleRequest ''hello'') emptyWorld))) =
     \<lparr>status = 200, headers = [], body = []\<rparr>"
    by (intro RetrievePaste_found) (simp add: lookupCounters_def)
  show ?thesis
    using a b c d e by (simp add: pastePath_0_zz9)
qed

text \<open>
  Claim C5, amended. Take a store the program has left behind and a word over the
  alphabet that the encoder gave to no ordinal handed out so far, be it to a request that
  succeeded or to one that failed. \<open>RetrievePaste\<close> of the word makes one call to the
  operating system, the read-only open of the paste file of the first number the decoder
  returned, or of ordinal 0 when it returned none; the error of the decoder plays no
  part. The answer is 404 when the open fails for absence, which it does unless the
  operating system fails it otherwise, and 500 with the message of the error when the
  open fails for another reason. No file changes.
\<close>

theorem RetrievePaste_not_found:
  assumes inv: "storeInv hr (files w) n"
    and route: "validHash hash"
    and never: "\<forall>k. 0 < k \<and> k \<le> n \<longrightarrow> EncodeInt64 (hashidMaker hr) [k] \<noteq> Inr hash"
    and path: "path = pastePath (case fst (DecodeInt64WithError (hashidMaker hr) hash) of
                                   [] \<Rightarrow> 0 | k # _ \<Rightarrow> k) hash"
  shows "fst (RetrievePaste hr flt hash w) =
       (case flt (CallOpenFile path O_RDONLY) of
          None \<Rightarrow>
            \<lparr>status = 404, headers = [],
             body = ''paste with id '' @ [CHR 0x22] @ hash @ [CHR 0x22] @ '' was not found''
                    @ [CHR 0x0A]\<rparr>
        | Some err \<Rightarrow>
            if IsNotExist err
            then \<lparr>status = 404, headers = [],
                   body = ''paste with id '' @ [CHR 0x22] @ hash @ [CHR 0x22]
                          @ '' was not found'' @ [CHR 0x0A]\<rparr>
            else \<lparr>status = 500, headers = [], body = Error err\<rparr>) \<and>
     files (snd (RetrievePaste hr flt hash w)) = files w \<and>
     trace (snd (RetrievePaste hr flt hash w)) = trace w @ [CallOpenFile path O_RDONLY]"
proof -
  have p: "path = pastePath (hd (lookupCounters hr hash)) hash"
    using path by (simp add: hd_lookupCounters)
  have absent: "files w (pastePath (hd (lookupCounters hr hash)) hash) = None"
    using inv never by (rule storeInv_unissued)
  show ?thesis
  proof (cases "flt (CallOpenFile path O_RDONLY)")
    case None
    then show ?thesis
      using RetrievePaste_open_absent [of flt hr hash w] absent
      by (simp add: p files_logCall trace_logCall)
  next
    case (Some err)
    then show ?thesis
      using RetrievePaste_open_fault [of flt hr hash err w]
      by (simp add: p files_logCall trace_logCall)
  qed
qed

theorem RetrievePaste_not_found_witness:
  "storeInv sampleRoutes (files emptyWorld) 0 \<and> validHash ''zz9'' \<and>
   fst (RetrievePaste sampleRoutes noFault ''zz9'' emptyWorld) =
     \<lparr>status = 404, headers = [],
      body = ''paste with id '' @ [CHR 0x22] @ ''zz9'' @ [CHR 0x22] @ '' was not found''
             @ [CHR 0x0A]\<rparr> \<and>
   fst (RetrievePaste sampleRoutes (\<lambda>c. Some (IOError False ''file name too long'')) ''zz9''
          emptyWorld) =
     \<lparr>status = 500, headers = [], body = ''file name too long''\<rparr> \<and>
   trace (snd (RetrievePaste sampleRoutes noFault ''zz9'' emptyWorld)) =
     [CallOpenFile ''/var/lib/paast/pastes/000000001_zz9'' O_RDONLY]"
proof -
  have inv: "storeInv sampleRoutes (files emptyWorld) 0"
    by (simp add: emptyWorld_def storeInv_empty)
  have route: "validHash ''zz9''"
    by (simp add: validHash_def Alphabet_def)
  have never: "\<forall>k. 0 < k \<and> k \<le> 0 \<longrightarrow> EncodeInt64 (hashidMaker sampleRoutes) [k] \<noteq> Inr ''zz9''"
    by simp
  have path: "pastePath 1 ''zz9'' =
      pastePath (case fst (DecodeInt64WithError (hashidMaker sampleRoutes) ''zz9'') of
                   [] \<Rightarrow> 0 | k # _ \<Rightarrow> k) ''zz9''"
    by simp
  show ?thesis
    using inv route
      RetrievePaste_not_found [OF inv route never path, of noFault]
      RetrievePaste_not_found [OF inv route never path,
        of "\<lambda>c. Some (IOError False ''file name too long'')"]
    by (simp add: noFault_def emptyWorld_def pastePath_1_zz9)
qed

end
